theory Spec2Isabelle
  imports Main "HOL-Library.Char_ord"
begin

section \<open>Strings\<close>

text \<open>
  The selector generator of \<^verbatim>\<open>src/src/pages/TestDataGenerator.tsx\<close> (the component
  \<^verbatim>\<open>XPathGenerator\<close>) works on JavaScript strings, which are sequences of UTF-16 code
  units. A string is modelled as a \<^typ>\<open>string\<close> in which every \<^typ>\<open>char\<close> is one code
  unit; the model therefore covers the strings whose code units are below 256, and
  \<^term>\<open>length\<close> is the \<^verbatim>\<open>.length\<close> of the source.
\<close>

abbreviation sq :: char where "sq \<equiv> CHR 0x27"
abbreviation dq :: char where "dq \<equiv> CHR 0x22"

text \<open>
  The white space of \<^verbatim>\<open>String.prototype.trim\<close> and of the regular expression class
  \<^verbatim>\<open>\s\<close> (the same set): TAB, LF, VT, FF, CR, SPACE and NO-BREAK SPACE are its members
  below 256.
\<close>

definition isWhiteSpace :: "char \<Rightarrow> bool" where
  "isWhiteSpace c \<longleftrightarrow>
     c = CHR 0x09 \<or> c = CHR 0x0A \<or> c = CHR 0x0B \<or> c = CHR 0x0C \<or> c = CHR 0x0D \<or>
     c = CHR 0x20 \<or> c = CHR 0xA0"

definition trim :: "string \<Rightarrow> string" where
  "trim s = rev (dropWhile isWhiteSpace (rev (dropWhile isWhiteSpace s)))"

text \<open>
  \<^verbatim>\<open>s.replace(/\s+/g, " ")\<close>: every maximal run of white space becomes one space. The
  flag says that the previous code unit was white space, so that the run has already
  been replaced.
\<close>

fun collapseFrom :: "bool \<Rightarrow> string \<Rightarrow> string" where
  "collapseFrom inRun [] = []"
| "collapseFrom inRun (c # cs) =
     (if isWhiteSpace c
      then (if inRun then collapseFrom True cs else CHR 0x20 # collapseFrom True cs)
      else c # collapseFrom False cs)"

definition collapseWhiteSpace :: "string \<Rightarrow> string" where
  "collapseWhiteSpace s = collapseFrom False s"

text \<open>\<^verbatim>\<open>String.prototype.toLowerCase\<close> on code units below 256.\<close>

definition upperCaseLetters :: string where
  "upperCaseLetters = ''ABCDEFGHIJKLMNOPQRSTUVWXYZ'' @
     [CHR 0xC0, CHR 0xC1, CHR 0xC2, CHR 0xC3, CHR 0xC4, CHR 0xC5, CHR 0xC6, CHR 0xC7,
      CHR 0xC8, CHR 0xC9, CHR 0xCA, CHR 0xCB, CHR 0xCC, CHR 0xCD, CHR 0xCE, CHR 0xCF,
      CHR 0xD0, CHR 0xD1, CHR 0xD2, CHR 0xD3, CHR 0xD4, CHR 0xD5, CHR 0xD6,
      CHR 0xD8, CHR 0xD9, CHR 0xDA, CHR 0xDB, CHR 0xDC, CHR 0xDD, CHR 0xDE]"

definition lowerCaseLetters :: string where
  "lowerCaseLetters = ''abcdefghijklmnopqrstuvwxyz'' @
     [CHR 0xE0, CHR 0xE1, CHR 0xE2, CHR 0xE3, CHR 0xE4, CHR 0xE5, CHR 0xE6, CHR 0xE7,
      CHR 0xE8, CHR 0xE9, CHR 0xEA, CHR 0xEB, CHR 0xEC, CHR 0xED, CHR 0xEE, CHR 0xEF,
      CHR 0xF0, CHR 0xF1, CHR 0xF2, CHR 0xF3, CHR 0xF4, CHR 0xF5, CHR 0xF6,
      CHR 0xF8, CHR 0xF9, CHR 0xFA, CHR 0xFB, CHR 0xFC, CHR 0xFD, CHR 0xFE]"

definition toLowerCaseChar :: "char \<Rightarrow> char" where
  "toLowerCaseChar c =
     (case map_of (zip upperCaseLetters lowerCaseLetters) c of Some l \<Rightarrow> l | None \<Rightarrow> c)"

definition toLowerCase :: "string \<Rightarrow> string" where
  "toLowerCase s = map toLowerCaseChar s"

text \<open>The decimal numeral that template interpolation gives for a non-negative integer.\<close>

fun numberToString :: "nat \<Rightarrow> string" where
  "numberToString n =
     (if n < 10 then [''0123456789'' ! n]
      else numberToString (n div 10) @ [''0123456789'' ! (n mod 10)])"

declare numberToString.simps [simp del]

section \<open>The document tree\<close>

text \<open>
  A parsed document is the tree below its root element. Of a node the generator reads
  \<^verbatim>\<open>tagName\<close>, the attributes (\<^verbatim>\<open>getAttribute\<close>, \<^verbatim>\<open>id\<close>), \<^verbatim>\<open>textContent\<close>, the
  element children and the parent; comment nodes are seen by none of these and are left
  out. \<^verbatim>\<open>tagName\<close> is kept as the DOM reports it (upper case for the elements of an
  HTML document); the source lower-cases it itself.
\<close>

datatype node =
    Element string "(string \<times> string) list" "node list"
  | Text string

fun isElement :: "node \<Rightarrow> bool" where
  "isElement (Element t as cs) = True"
| "isElement (Text s) = False"

fun tagName :: "node \<Rightarrow> string" where
  "tagName (Element t as cs) = t"
| "tagName (Text s) = []"

fun getAttribute :: "node \<Rightarrow> string \<Rightarrow> string option" where
  "getAttribute (Element t as cs) name = map_of as name"
| "getAttribute (Text s) name = None"

text \<open>\<^verbatim>\<open>element.id\<close> reflects the attribute and is the empty string without it.\<close>

definition elementId :: "node \<Rightarrow> string" where
  "elementId n = (case getAttribute n ''id'' of None \<Rightarrow> [] | Some v \<Rightarrow> v)"

fun children :: "node \<Rightarrow> node list" where
  "children (Element t as cs) = filter isElement cs"
| "children (Text s) = []"

fun textContent :: "node \<Rightarrow> string" where
  "textContent (Element t as cs) = concat (map textContent cs)"
| "textContent (Text s) = s"

text \<open>
  An element is identified by its position: its index among its parent's element
  children, followed by the position of the parent; the root element is at \<open>[]\<close>.
  An element handle is the position together with the node found there.
\<close>

type_synonym position = "nat list"
type_synonym element = "position \<times> node"

primrec descend :: "node \<Rightarrow> nat list \<Rightarrow> node option" where
  "descend n [] = (if isElement n then Some n else None)"
| "descend n (i # is) =
     (if i < length (children n) then descend (children n ! i) is else None)"

definition nodeAt :: "node \<Rightarrow> position \<Rightarrow> node option" where
  "nodeAt doc p = descend doc (rev p)"

text \<open>
  \<^verbatim>\<open>querySelectorAll("*")\<close>: the element itself and its descendant elements in document
  (pre-) order. \<open>subtrees p i ns\<close> lists the elements below the child nodes \<open>ns\<close> of the
  element at \<open>p\<close>, the next element child having index \<open>i\<close>.
\<close>

fun subtree :: "position \<Rightarrow> node \<Rightarrow> element list"
and subtrees :: "position \<Rightarrow> nat \<Rightarrow> node list \<Rightarrow> element list" where
  "subtree p (Element t as cs) = (p, Element t as cs) # subtrees p 0 cs"
| "subtree p (Text s) = []"
| "subtrees p i [] = []"
| "subtrees p i (Element t as cs # ns) =
     subtree (i # p) (Element t as cs) @ subtrees p (Suc i) ns"
| "subtrees p i (Text s # ns) = subtrees p i ns"

definition querySelectorAll :: "node \<Rightarrow> element list" where
  "querySelectorAll doc = subtree [] doc"

text \<open>
  The type selector \<^verbatim>\<open>label\<close> matches an element by its local name, which for the
  elements of an HTML document is the lower-cased \<^verbatim>\<open>tagName\<close>.
\<close>

definition isLabel :: "node \<Rightarrow> bool" where
  "isLabel n \<longleftrightarrow> toLowerCase (tagName n) = ''label''"

text \<open>
  \<^verbatim>\<open>doc.querySelector(`label[for="${CSS.escape(id)}"]`)\<close>: the first label of the document
  whose \<^verbatim>\<open>for\<close> attribute is the identifier (\<^verbatim>\<open>CSS.escape\<close> quotes it for the selector
  parser, which reads the identifier back).
\<close>

definition querySelectorLabelFor :: "node \<Rightarrow> string \<Rightarrow> element option" where
  "querySelectorLabelFor doc ident =
     find (\<lambda>(p, n). isLabel n \<and> getAttribute n ''for'' = Some ident) (querySelectorAll doc)"

text \<open>\<^verbatim>\<open>parent.querySelector("label")\<close>: the first label among the descendants.\<close>

fun querySelectorLabel :: "element \<Rightarrow> element option" where
  "querySelectorLabel (p, Element t as cs) = find (\<lambda>(q, n). isLabel n) (subtrees p 0 cs)"
| "querySelectorLabel (p, Text s) = None"

text \<open>\<^verbatim>\<open>el.closest("label")\<close>: the element itself or its nearest ancestor that is a label.\<close>

fun closestLabel :: "node \<Rightarrow> position \<Rightarrow> element option" where
  "closestLabel doc p =
     (case nodeAt doc p of
        None \<Rightarrow> None
      | Some n \<Rightarrow>
          if isLabel n then Some (p, n)
          else (case p of [] \<Rightarrow> None | i # q \<Rightarrow> closestLabel doc q))"

declare closestLabel.simps [simp del]

definition parentElement :: "node \<Rightarrow> position \<Rightarrow> element option" where
  "parentElement doc p =
     (case p of [] \<Rightarrow> None | i # q \<Rightarrow> map_option (\<lambda>n. (q, n)) (nodeAt doc q))"

definition nextElementSibling :: "node \<Rightarrow> position \<Rightarrow> element option" where
  "nextElementSibling doc p =
     (case p of [] \<Rightarrow> None | i # q \<Rightarrow> map_option (\<lambda>n. (Suc i # q, n)) (nodeAt doc (Suc i # q)))"

text \<open>
  Two element references are the same object when they are the same position of the
  same document. The generator parses its input into a fresh document \<^verbatim>\<open>doc\<close>, while
  the global \<^verbatim>\<open>document\<close> is the document of the page that runs the tool.
\<close>

datatype docId = WindowDocument | ParsedDocument

type_synonym elementRef = "docId \<times> position"

definition document_body :: elementRef where
  "document_body = (WindowDocument, [1])"

section \<open>Named properties that shadow the built-in ones\<close>

text \<open>
  The interfaces \<^verbatim>\<open>HTMLFormElement\<close> and \<^verbatim>\<open>Document\<close> are declared
  \<^verbatim>\<open>[LegacyOverrideBuiltIns]\<close>: a supported named property is found before a property of
  the same name on the prototype chain. On a form, \<^verbatim>\<open>el.tagName\<close>, \<^verbatim>\<open>el.getAttribute\<close>,
  \<^verbatim>\<open>el.textContent\<close>, \<^verbatim>\<open>el.id\<close> and the like therefore are a control of the form (or a
  \<^verbatim>\<open>RadioNodeList\<close> of several) when one has that word as its \<^verbatim>\<open>id\<close> or \<^verbatim>\<open>name\<close>, and
  \<^verbatim>\<open>doc.querySelectorAll\<close> is an element when an image, a form, a frame or a plug-in
  element of the document is named so.

  Which form owns a control is state that the parser leaves with the tree (it is the
  nearest ancestor form or the form that the \<^verbatim>\<open>form\<close> attribute names, but also a form
  that is no ancestor when the markup nests tables and forms badly). A parsed document
  is the tree together with this association.
\<close>

record document =
  documentElement :: node
  formOwner :: "position \<Rightarrow> position option"

text \<open>
  The elements of the HTML namespace are those whose \<^verbatim>\<open>tagName\<close> is in upper case: the
  parser gives a foreign element a name in lower or mixed case.
\<close>

definition isForm :: "node \<Rightarrow> bool" where
  "isForm n \<longleftrightarrow> tagName n = ''FORM''"

text \<open>
  The listed elements whose names a form exposes; an input in the Image Button state is
  left out.
\<close>

definition isListed :: "node \<Rightarrow> bool" where
  "isListed n \<longleftrightarrow>
     tagName n \<in> set [''BUTTON'', ''FIELDSET'', ''OBJECT'', ''OUTPUT'', ''SELECT'', ''TEXTAREA'']
     \<or> (tagName n = ''INPUT'' \<and>
        (case getAttribute n ''type'' of None \<Rightarrow> True | Some t \<Rightarrow> toLowerCase t \<noteq> ''image''))"

definition hasName :: "node \<Rightarrow> string \<Rightarrow> bool" where
  "hasName n name \<longleftrightarrow> getAttribute n ''id'' = Some name \<or> getAttribute n ''name'' = Some name"

text \<open>
  The value of the named property \<open>name\<close> of the form at \<open>f\<close>: the listed elements owned
  by the form that have the name, in tree order; when there is none, the images owned
  by the form that have the name. The list is empty when the name is not a supported
  property name. (The past names map only remembers elements that a name gave before;
  nothing renames an element here.)
\<close>

definition formNamedItems :: "document \<Rightarrow> position \<Rightarrow> string \<Rightarrow> element list" where
  "formNamedItems doc f name =
     (let owned = filter (\<lambda>(p, n). formOwner doc p = Some f \<and> hasName n name)
                    (querySelectorAll (documentElement doc));
          listed = filter (\<lambda>(p, n). isListed n) owned
      in if listed \<noteq> [] then listed
         else filter (\<lambda>(p, n). tagName n = ''IMG'') owned)"

text \<open>
  What shadows the built-in property \<open>prop\<close> of an element: nothing unless the element
  is a form with a named property of that name.
\<close>

definition shadowing :: "document \<Rightarrow> element \<Rightarrow> string \<Rightarrow> element list" where
  "shadowing doc el prop =
     (if isForm (snd el) then formNamedItems doc (fst el) prop else [])"

text \<open>
  The named properties of the document: the \<^verbatim>\<open>name\<close> of a form, frame, image, embed or
  exposed object element, the \<^verbatim>\<open>id\<close> of an exposed object element, and the \<^verbatim>\<open>id\<close> of an
  image that also has a non-empty \<^verbatim>\<open>name\<close>. In a document without a browsing context
  every object element shows its fallback content, so an object element is exposed
  exactly when it has no object or embed descendant, and every embed element is
  exposed (an object ancestor of it is not).
\<close>

definition exposedObject :: "node \<Rightarrow> bool" where
  "exposedObject n \<longleftrightarrow>
     tagName n = ''OBJECT'' \<and>
     \<not> list_ex (\<lambda>(q, m). tagName m \<in> set [''OBJECT'', ''EMBED'']) (tl (subtree [] n))"

definition documentNamedItems :: "document \<Rightarrow> string \<Rightarrow> element list" where
  "documentNamedItems doc name =
     filter (\<lambda>(p, n).
        (tagName n \<in> set [''EMBED'', ''FORM'', ''IFRAME'', ''IMG''] \<and>
           getAttribute n ''name'' = Some name)
        \<or> (exposedObject n \<and> hasName n name)
        \<or> (tagName n = ''IMG'' \<and> getAttribute n ''id'' = Some name \<and>
           getAttribute n ''name'' \<noteq> None \<and> getAttribute n ''name'' \<noteq> Some []))
       (querySelectorAll (documentElement doc))"

text \<open>
  A named property value inside a template literal: the default conversion of an
  object to a string, which names its interface.
\<close>

definition interfaceName :: "node \<Rightarrow> string" where
  "interfaceName n =
     (case map_of [(''BUTTON'', ''HTMLButtonElement''), (''FIELDSET'', ''HTMLFieldSetElement''),
                   (''INPUT'', ''HTMLInputElement''), (''OBJECT'', ''HTMLObjectElement''),
                   (''OUTPUT'', ''HTMLOutputElement''), (''SELECT'', ''HTMLSelectElement''),
                   (''TEXTAREA'', ''HTMLTextAreaElement''), (''IMG'', ''HTMLImageElement'')]
             (tagName n) of
        Some name \<Rightarrow> name
      | None \<Rightarrow> ''HTMLElement'')"

definition objectToString :: "element list \<Rightarrow> string" where
  "objectToString items =
     (case items of
        [(p, n)] \<Rightarrow> ''[object '' @ interfaceName n @ '']''
      | _ \<Rightarrow> ''[object RadioNodeList]'')"

section \<open>Escaping helpers\<close>

text \<open>
  \<^verbatim>\<open>escapeXpathText\<close>: an XPath literal for the string. The replacement of the third
  branch puts \<^verbatim>\<open>',"'",'\<close> in the place of every single quote.
\<close>

definition escapeXpathText :: "string \<Rightarrow> string" where
  "escapeXpathText s =
     (if sq \<notin> set s then [sq] @ s @ [sq]
      else if dq \<notin> set s then [dq] @ s @ [dq]
      else ''concat('' @ [sq] @
           concat (map (\<lambda>c. if c = sq then [sq, CHR 0x2C, dq, sq, dq, CHR 0x2C, sq] else [c]) s) @
           [sq] @ '')'')"

text \<open>\<^verbatim>\<open>escapeCssAttr\<close>: backslashes are doubled, then double quotes get a backslash.\<close>

definition escapeCssAttr :: "string \<Rightarrow> string" where
  "escapeCssAttr val =
     (let escaped =
        concat (map (\<lambda>c. if c = dq then [CHR 0x5C, dq] else [c])
          (concat (map (\<lambda>c. if c = CHR 0x5C then [CHR 0x5C, CHR 0x5C] else [c]) val)))
      in [dq] @ escaped @ [dq])"

section \<open>The absolute path of an element\<close>

text \<open>
  The element children of an element, as handles.
\<close>

definition childElements :: "element \<Rightarrow> element list" where
  "childElements el = map (\<lambda>(j, c). (j # fst el, c)) (enumerate 0 (children (snd el)))"

text \<open>
  What the loop of \<^verbatim>\<open>getXPathTo\<close> runs over, \<^verbatim>\<open>element.parentElement.children\<close>: the
  element children of the parent; but when the parent is a form with a named property
  \<^verbatim>\<open>children\<close>, the \<^verbatim>\<open>RadioNodeList\<close> of the controls of that name, or, for a single such
  control, nothing (an element has no \<^verbatim>\<open>length\<close>, unless it is a select element, whose
  items are its options, none of which is a child of the form).
\<close>

definition siblingsOf :: "document \<Rightarrow> element \<Rightarrow> element list" where
  "siblingsOf doc parent =
     (case shadowing doc parent ''children'' of
        [] \<Rightarrow> childElements parent
      | [item] \<Rightarrow> []
      | items \<Rightarrow> items)"

text \<open>
  \<^verbatim>\<open>sibling.nodeType === 1 && sibling.tagName === element.tagName\<close>, for the
  \<^verbatim>\<open>tagName\<close> \<open>t\<close> of the element: a shadowed property of a sibling form is an object and
  equals neither.
\<close>

definition sameTag :: "document \<Rightarrow> element \<Rightarrow> string \<Rightarrow> bool" where
  "sameTag doc sibling t \<longleftrightarrow>
     shadowing doc sibling ''nodeType'' = [] \<and> shadowing doc sibling ''tagName'' = [] \<and>
     tagName (snd sibling) = t"

text \<open>
  The loop: \<open>p\<close> is the position of the element, \<open>ix\<close> the running count of earlier
  siblings with the element's \<^verbatim>\<open>tagName\<close>. The result is the count at the sibling that
  is the element itself, or \<open>None\<close> when the loop ends without meeting it.
\<close>

fun siblingLoop :: "document \<Rightarrow> element list \<Rightarrow> position \<Rightarrow> nat \<Rightarrow> string \<Rightarrow> nat option" where
  "siblingLoop doc [] p ix t = None"
| "siblingLoop doc (sibling # siblings) p ix t =
     (if fst sibling = p then Some ix
      else siblingLoop doc siblings p (if sameTag doc sibling t then Suc ix else ix) t)"

text \<open>
  \<^verbatim>\<open>getXPathTo(element)\<close> for the element at position \<open>p\<close> of the document \<open>d\<close>, which is
  \<open>doc\<close>. \<open>None\<close> is an exception, which the caller catches: a property read on a
  missing node, \<^verbatim>\<open>toLowerCase\<close> called on the control that shadows \<^verbatim>\<open>tagName\<close>, or
  \<^verbatim>\<open>length\<close> read on the \<^verbatim>\<open>children\<close> that a \<^verbatim>\<open>RadioNodeList\<close> does not have.

  When \<^verbatim>\<open>element.parentElement\<close> is shadowed by one control, the loop runs over the
  children of that control and meets the element only if the control is its parent;
  the parent of the root is \<^verbatim>\<open>null\<close>.
\<close>

fun getXPathTo :: "docId \<Rightarrow> document \<Rightarrow> position \<Rightarrow> string option" where
  "getXPathTo d doc p =
     (case nodeAt (documentElement doc) p of
        None \<Rightarrow> None
      | Some e \<Rightarrow>
          if shadowing doc (p, e) ''id'' \<noteq> []
          then Some (''//*[@id='' @ [sq] @ objectToString (shadowing doc (p, e) ''id'') @
                     [sq] @ '']'')
          else if elementId e \<noteq> [] then Some (''//*[@id='' @ [sq] @ elementId e @ [sq] @ '']'')
          else if shadowing doc (p, e) ''tagName'' \<noteq> [] then None
          else if toLowerCase (tagName e) = ''html'' then Some ''/html''
          else if (d, p) = document_body then Some ''/html/body''
          else if length (shadowing doc (p, e) ''parentElement'') > 1 then None
          else (case p of
                  [] \<Rightarrow> Some (''/'' @ toLowerCase (tagName e))
                | k # q \<Rightarrow>
                    if shadowing doc (p, e) ''parentElement'' \<noteq> [] \<and>
                       map fst (shadowing doc (p, e) ''parentElement'') \<noteq> [q]
                    then Some (''/'' @ toLowerCase (tagName e))
                    else (case nodeAt (documentElement doc) q of
                       None \<Rightarrow> None
                     | Some parent \<Rightarrow>
                         (case siblingLoop doc (siblingsOf doc (q, parent)) p 0 (tagName e) of
                            Some ix \<Rightarrow>
                              (case getXPathTo d doc q of
                                 None \<Rightarrow> None
                               | Some parentPath \<Rightarrow>
                                   Some (parentPath @ ''/'' @ toLowerCase (tagName e) @
                                         ''['' @ numberToString (ix + 1) @ '']''))
                          | None \<Rightarrow> Some (''/'' @ toLowerCase (tagName e))))))"

declare getXPathTo.simps [simp del]

section \<open>The selector generator\<close>

definition STABLE_ATTRIBUTES :: "string list" where
  "STABLE_ATTRIBUTES =
     [''name'', ''placeholder'', ''type'', ''role'', ''aria-label'', ''alt'', ''href'', ''src'']"

definition TEST_ID_ATTRIBUTES :: "string list" where
  "TEST_ID_ATTRIBUTES = [''data-testid'', ''data-cy'', ''data-qa'', ''data-test'']"

definition structuralTags :: "string list" where
  "structuralTags = [''html'', ''head'', ''body'', ''script'', ''style'', ''meta'', ''title'']"

text \<open>
  What the generator takes from the browser: the parser behind
  \<^verbatim>\<open>new DOMParser().parseFromString(html, "text/html")\<close> (\<open>None\<close> when it raises) and
  \<^verbatim>\<open>CSS.escape\<close>.
\<close>

record browser =
  parseFromString :: "string \<Rightarrow> document option"
  CSS_escape :: "string \<Rightarrow> string"

text \<open>The three arrays that the callback of \<^verbatim>\<open>elements.forEach\<close> pushes to.\<close>

record accumulators =
  xpaths :: "string list"
  cssSelectors :: "string list"
  dataTestIdSelectors :: "string list"

definition emptyAccumulators :: accumulators where
  "emptyAccumulators = \<lparr>xpaths = [], cssSelectors = [], dataTestIdSelectors = []\<rparr>"

definition pushXpath :: "string \<Rightarrow> accumulators \<Rightarrow> accumulators" where
  "pushXpath s a = a\<lparr>xpaths := xpaths a @ [s]\<rparr>"

definition pushCss :: "string \<Rightarrow> accumulators \<Rightarrow> accumulators" where
  "pushCss s a = a\<lparr>cssSelectors := cssSelectors a @ [s]\<rparr>"

definition pushTestId :: "string \<Rightarrow> accumulators \<Rightarrow> accumulators" where
  "pushTestId s a = a\<lparr>dataTestIdSelectors := dataTestIdSelectors a @ [s]\<rparr>"

text \<open>
  A string read from an attribute (or \<^verbatim>\<open>null\<close>) in a condition: it counts when it is
  present and not empty.
\<close>

definition truthy :: "string option \<Rightarrow> string option" where
  "truthy v = (case v of None \<Rightarrow> None | Some s \<Rightarrow> if s = [] then None else Some s)"

text \<open>The text of a label as the source normalises it, when its trimmed text is not empty.\<close>

definition labelTextOf :: "element option \<Rightarrow> string option" where
  "labelTextOf l =
     (case l of
        None \<Rightarrow> None
      | Some (p, n) \<Rightarrow>
          if trim (textContent n) = [] then None
          else Some (collapseWhiteSpace (trim (textContent n))))"

subsection \<open>Rule 1: test-id attributes\<close>

definition testIdStep :: "string \<Rightarrow> node \<Rightarrow> string \<Rightarrow> accumulators \<Rightarrow> accumulators" where
  "testIdStep tag n attr a =
     (case truthy (getAttribute n attr) of
        None \<Rightarrow> a
      | Some v \<Rightarrow>
          (let escapedXPathVal = escapeXpathText v;
               escapedCssVal = escapeCssAttr v;
               selector = tag @ ''['' @ attr @ ''='' @ escapedCssVal @ '']''
           in pushTestId selector
                (pushCss selector
                  (pushXpath (''//'' @ tag @ ''[@'' @ attr @ ''='' @ escapedXPathVal @ '']'') a))))"

definition testIdRule :: "string \<Rightarrow> node \<Rightarrow> accumulators \<Rightarrow> accumulators" where
  "testIdRule tag n a = fold (testIdStep tag n) TEST_ID_ATTRIBUTES a"

subsection \<open>Rule 2: identifier\<close>

definition idRule :: "browser \<Rightarrow> string \<Rightarrow> node \<Rightarrow> accumulators \<Rightarrow> accumulators" where
  "idRule b tag n a =
     (case truthy (getAttribute n ''id'') of
        None \<Rightarrow> a
      | Some ident \<Rightarrow>
          pushCss (tag @ ''#'' @ CSS_escape b ident)
            (pushXpath (''//'' @ tag @ ''[@id='' @ escapeXpathText ident @ '']'') a))"

subsection \<open>Rule 3: labels of form fields\<close>

text \<open>
  The rules of this group run for an input, textarea or select element, which is no
  form; its own properties are the built-in ones. \<open>None\<close> is an exception that leaves
  the callback: \<^verbatim>\<open>doc.querySelector\<close> or the \<^verbatim>\<open>querySelector\<close> of a parent form is
  shadowed by an element and cannot be called.
\<close>

definition linkedLabelRule ::
    "document \<Rightarrow> string \<Rightarrow> node \<Rightarrow> accumulators \<Rightarrow> accumulators option" where
  "linkedLabelRule doc tag n a =
     (case truthy (getAttribute n ''id'') of
        None \<Rightarrow> Some a
      | Some ident \<Rightarrow>
          if documentNamedItems doc ''querySelector'' \<noteq> [] then None
          else (case labelTextOf (querySelectorLabelFor (documentElement doc) ident) of
                  None \<Rightarrow> Some a
                | Some labelText \<Rightarrow>
                    Some (pushXpath (''//'' @ tag @ ''[@id=//label[normalize-space(text())='' @
                                     escapeXpathText labelText @ '']/@for]'') a)))"

definition parentLabelRule :: "node \<Rightarrow> string \<Rightarrow> position \<Rightarrow> accumulators \<Rightarrow> accumulators" where
  "parentLabelRule doc tag p a =
     (case labelTextOf (closestLabel doc p) of
        None \<Rightarrow> a
      | Some labelText \<Rightarrow>
          pushCss (''label:has('' @ tag @ '')'')
            (pushXpath (''//label[normalize-space(text())='' @ escapeXpathText labelText @
                        '']//'' @ tag) a))"

text \<open>
  The first label below the parent, kept only when its \<^verbatim>\<open>nextElementSibling\<close> is the
  element itself (both are nodes of the parsed document, so they are the same object
  when their positions agree).
\<close>

definition siblingLabelOf :: "node \<Rightarrow> element \<Rightarrow> position \<Rightarrow> element option" where
  "siblingLabelOf doc parent p =
     (case querySelectorLabel parent of
        None \<Rightarrow> None
      | Some (q, l) \<Rightarrow>
          if trim (textContent l) \<noteq> [] \<and>
             map_option fst (nextElementSibling doc q) = Some p
          then Some (q, l) else None)"

definition siblingLabelRule ::
    "document \<Rightarrow> string \<Rightarrow> position \<Rightarrow> accumulators \<Rightarrow> accumulators option" where
  "siblingLabelRule doc tag p a =
     (case parentElement (documentElement doc) p of
        None \<Rightarrow> Some a
      | Some parent \<Rightarrow>
          if shadowing doc parent ''querySelector'' \<noteq> [] then None
          else (case labelTextOf (siblingLabelOf (documentElement doc) parent p) of
                  None \<Rightarrow> Some a
                | Some labelText \<Rightarrow>
                    Some (pushXpath (''//label[normalize-space(text())='' @
                                     escapeXpathText labelText @
                                     '']/following-sibling::'' @ tag) a)))"

definition labelRule ::
    "document \<Rightarrow> string \<Rightarrow> element \<Rightarrow> accumulators \<Rightarrow> accumulators option" where
  "labelRule doc tag el a =
     (if tag \<in> set [''input'', ''textarea'', ''select'']
      then (case linkedLabelRule doc tag (snd el) a of
              None \<Rightarrow> None
            | Some a' \<Rightarrow>
                siblingLabelRule doc tag (fst el)
                  (parentLabelRule (documentElement doc) tag (fst el) a'))
      else Some a)"

subsection \<open>Rule 4: text of leaf elements\<close>

definition textRule :: "string \<Rightarrow> node \<Rightarrow> accumulators \<Rightarrow> accumulators" where
  "textRule tag n a =
     (let text = collapseWhiteSpace (trim (textContent n))
      in if tag \<in> set [''button'', ''a'', ''div'', ''span'', ''h1'', ''h2'', ''h3'', ''p'', ''legend'']
            \<and> text \<noteq> [] \<and> length text < 50 \<and> children n = []
         then (let escapedText = escapeXpathText text
               in pushXpath (''//'' @ tag @ ''[contains(normalize-space(text()), '' @
                             escapedText @ '')]'')
                    (pushXpath (''//'' @ tag @ ''[normalize-space(text())='' @
                                escapedText @ '']'') a))
         else a)"

subsection \<open>Rule 5: stable attributes\<close>

definition stableStep :: "string \<Rightarrow> node \<Rightarrow> string \<Rightarrow> accumulators \<Rightarrow> accumulators" where
  "stableStep tag n attr a =
     (case truthy (getAttribute n attr) of
        None \<Rightarrow> a
      | Some v \<Rightarrow>
          pushCss (tag @ ''['' @ attr @ ''='' @ escapeCssAttr v @ '']'')
            (pushXpath (''//'' @ tag @ ''[@'' @ attr @ ''='' @ escapeXpathText v @ '']'') a))"

definition stableRule :: "string \<Rightarrow> node \<Rightarrow> accumulators \<Rightarrow> accumulators" where
  "stableRule tag n a = fold (stableStep tag n) STABLE_ATTRIBUTES a"

subsection \<open>Rule 6: absolute path\<close>

definition absoluteRule :: "document \<Rightarrow> string \<Rightarrow> position \<Rightarrow> accumulators \<Rightarrow> accumulators" where
  "absoluteRule doc tag p a =
     (if tag \<in> set [''input'', ''button'', ''a'', ''select'', ''textarea'']
      then (case getXPathTo ParsedDocument doc p of
              Some path \<Rightarrow> pushXpath path a
            | None \<Rightarrow> a)
      else a)"

subsection \<open>The pass over the elements\<close>

text \<open>
  The callback of \<^verbatim>\<open>elements.forEach((el, index) => ...)\<close>. \<open>None\<close> is an exception that
  leaves the callback: on a form among the first 100 elements, \<^verbatim>\<open>el.tagName\<close>,
  \<^verbatim>\<open>el.getAttribute\<close> or \<^verbatim>\<open>el.textContent\<close> is a control of that name, on which
  \<^verbatim>\<open>toLowerCase\<close>, the call and \<^verbatim>\<open>trim\<close> fail; or a rule of group 3 raises.
\<close>

definition inspect ::
    "browser \<Rightarrow> document \<Rightarrow> nat \<times> element \<Rightarrow> accumulators \<Rightarrow> accumulators option" where
  "inspect b doc x a =
     (case x of (index, el) \<Rightarrow>
        if index \<ge> 100 then Some a
        else if shadowing doc el ''tagName'' \<noteq> [] then None
        else (let tag = toLowerCase (tagName (snd el))
              in if tag \<in> set structuralTags then Some a
                 else if shadowing doc el ''getAttribute'' \<noteq> [] then None
                 else if shadowing doc el ''textContent'' \<noteq> [] then None
                 else (case labelRule doc tag el
                              (idRule b tag (snd el)
                                (testIdRule tag (snd el) a)) of
                         None \<Rightarrow> None
                       | Some a' \<Rightarrow>
                           Some (absoluteRule doc tag (fst el)
                                   (stableRule tag (snd el)
                                     (textRule tag (snd el) a'))))))"

text \<open>\<^verbatim>\<open>forEach\<close> calls the callback in order; an exception ends the pass.\<close>

fun forEachFrom ::
    "browser \<Rightarrow> document \<Rightarrow> (nat \<times> element) list \<Rightarrow> accumulators \<Rightarrow> accumulators option" where
  "forEachFrom b doc [] a = Some a"
| "forEachFrom b doc (x # xs) a =
     (case inspect b doc x a of
        None \<Rightarrow> None
      | Some a' \<Rightarrow> forEachFrom b doc xs a')"

definition forEach ::
    "browser \<Rightarrow> document \<Rightarrow> element list \<Rightarrow> accumulators \<Rightarrow> accumulators option" where
  "forEach b doc elements a = forEachFrom b doc (enumerate 0 elements) a"

text \<open>
  The statements of the \<^verbatim>\<open>try\<close> block after the parse, up to the end of the pass:
  \<^verbatim>\<open>doc.querySelectorAll("*")\<close> raises when an element shadows \<^verbatim>\<open>querySelectorAll\<close>.
\<close>

definition collect :: "browser \<Rightarrow> document \<Rightarrow> accumulators option" where
  "collect b doc =
     (if documentNamedItems doc ''querySelectorAll'' \<noteq> [] then None
      else forEach b doc (querySelectorAll (documentElement doc)) emptyAccumulators)"

text \<open>
  \<^verbatim>\<open>Array.from(new Set(xs))\<close>: a set keeps its members in insertion order, and adding
  a member again changes nothing.
\<close>

definition setAdd :: "string \<Rightarrow> string list \<Rightarrow> string list" where
  "setAdd x members = (if x \<in> set members then members else members @ [x])"

definition arrayFromSet :: "string list \<Rightarrow> string list" where
  "arrayFromSet xs = fold setAdd xs []"

record Selectors =
  xpath :: "string list"
  css :: "string list"
  testIds :: "string list"

definition noTestIdsFound :: string where
  "noTestIdsFound = ''No data-test* attributes found''"

definition selectorsOf :: "accumulators \<Rightarrow> Selectors" where
  "selectorsOf a =
     \<lparr>xpath = arrayFromSet (xpaths a),
      css = arrayFromSet (cssSelectors a),
      testIds = arrayFromSet
        (if dataTestIdSelectors a \<noteq> [] then dataTestIdSelectors a else [noTestIdsFound])\<rparr>"

text \<open>
  The component state that \<^verbatim>\<open>generateSelectors\<close> reads and writes: the text of the input
  box, the stored selectors, and the toasts shown so far. An exception anywhere in the
  \<^verbatim>\<open>try\<close> block ends in the \<^verbatim>\<open>catch\<close> block, which shows the failure toast and stores
  nothing.
\<close>

datatype toast = ToastError string | ToastSuccess string

record state =
  html :: string
  selectors :: "Selectors option"
  toasts :: "toast list"

definition analysisFailed :: "state \<Rightarrow> state" where
  "analysisFailed st =
     st\<lparr>toasts := toasts st @ [ToastError ''Failed to analyze HTML. Please check your input.'']\<rparr>"

definition generateSelectors :: "browser \<Rightarrow> state \<Rightarrow> state" where
  "generateSelectors b st =
     (if trim (html st) = []
      then st\<lparr>toasts := toasts st @ [ToastError ''Please enter some HTML first'']\<rparr>
      else (case parseFromString b (html st) of
              None \<Rightarrow> analysisFailed st
            | Some doc \<Rightarrow>
                (case collect b doc of
                   None \<Rightarrow> analysisFailed st
                 | Some a \<Rightarrow>
                     st\<lparr>selectors := Some (selectorsOf a),
                        toasts := toasts st @
                          [ToastSuccess ''Advanced selectors generated successfully!'']\<rparr>)))"

section \<open>Notions used to state the properties\<close>

text \<open>
  The elements that reach the rules: those that pass the index test and the tag test of
  the callback, with their index.
\<close>

definition inspectedElements :: "node \<Rightarrow> (nat \<times> element) list" where
  "inspectedElements doc =
     filter (\<lambda>(index, el). index < 100 \<and> toLowerCase (tagName (snd el)) \<notin> set structuralTags)
       (enumerate 0 (querySelectorAll doc))"


text \<open>The position at which a string is emitted first.\<close>

definition firstIndex :: "string list \<Rightarrow> string \<Rightarrow> nat" where
  "firstIndex xs x = length (takeWhile (\<lambda>y. y \<noteq> x) xs)"

text \<open>Appending what a second triple of arrays holds to a first.\<close>

definition appendAccumulators :: "accumulators \<Rightarrow> accumulators \<Rightarrow> accumulators" where
  "appendAccumulators a d =
     \<lparr>xpaths = xpaths a @ xpaths d,
      cssSelectors = cssSelectors a @ cssSelectors d,
      dataTestIdSelectors = dataTestIdSelectors a @ dataTestIdSelectors d\<rparr>"

text \<open>
  What the callback emits for one element: what it pushes to empty arrays, and nothing
  when it raises.
\<close>

definition emits :: "browser \<Rightarrow> document \<Rightarrow> nat \<times> element \<Rightarrow> accumulators" where
  "emits b doc x =
     (case inspect b doc x emptyAccumulators of None \<Rightarrow> emptyAccumulators | Some d \<Rightarrow> d)"

text \<open>A step only pushes: its effect on any arrays is to append what it emits.\<close>

definition appending :: "(accumulators \<Rightarrow> accumulators) \<Rightarrow> bool" where
  "appending f \<longleftrightarrow> (\<forall>a. f a = appendAccumulators a (f emptyAccumulators))"

text \<open>
  The same for a step that may raise: whether it raises does not depend on the arrays.
\<close>

definition appendingOpt :: "(accumulators \<Rightarrow> accumulators option) \<Rightarrow> bool" where
  "appendingOpt f \<longleftrightarrow> (\<forall>a. f a = map_option (appendAccumulators a) (f emptyAccumulators))"

section \<open>A browser for the examples\<close>

text \<open>
  \<^verbatim>\<open>CSS.escape\<close> after the CSSOM serialisation of an identifier, for code units 1 to
  255: control characters and a leading digit (also after a leading hyphen) are
  escaped as code points, a lone hyphen and every other character outside
  \<^verbatim>\<open>[-_0-9A-Za-z]\<close> below 128 get a backslash. The replacement character that stands
  for U+0000 is not a code unit of the model, and the attribute values of a parsed
  document never hold U+0000; it is left as it is.
\<close>

definition hexOf :: "nat \<Rightarrow> string" where
  "hexOf n =
     (if n < 16 then [''0123456789abcdef'' ! n]
      else [''0123456789abcdef'' ! (n div 16), ''0123456789abcdef'' ! (n mod 16)])"

definition escapeAsCodePoint :: "char \<Rightarrow> string" where
  "escapeAsCodePoint c = [CHR 0x5C] @ hexOf (of_char c) @ [CHR 0x20]"

definition isDigit :: "char \<Rightarrow> bool" where
  "isDigit c \<longleftrightarrow> CHR ''0'' \<le> c \<and> c \<le> CHR ''9''"

definition isNameChar :: "char \<Rightarrow> bool" where
  "isNameChar c \<longleftrightarrow>
     CHR 0x80 \<le> c \<or> c = CHR ''-'' \<or> c = CHR ''_'' \<or> isDigit c \<or>
     (CHR ''A'' \<le> c \<and> c \<le> CHR ''Z'') \<or> (CHR ''a'' \<le> c \<and> c \<le> CHR ''z'')"

fun serializeFrom :: "string \<Rightarrow> nat \<Rightarrow> string \<Rightarrow> string" where
  "serializeFrom whole i [] = []"
| "serializeFrom whole i (c # cs) =
     (if c = CHR 0x00 then [c]
      else if (CHR 0x01 \<le> c \<and> c \<le> CHR 0x1F) \<or> c = CHR 0x7F then escapeAsCodePoint c
      else if i = 0 \<and> isDigit c then escapeAsCodePoint c
      else if i = 1 \<and> isDigit c \<and> take 1 whole = ''-'' then escapeAsCodePoint c
      else if i = 0 \<and> c = CHR ''-'' \<and> length whole = 1 then [CHR 0x5C, c]
      else if isNameChar c then [c]
      else [CHR 0x5C, c])
     @ serializeFrom whole (Suc i) cs"

definition cssEscape :: "string \<Rightarrow> string" where
  "cssEscape s = serializeFrom s 0 s"

text \<open>
  The documents of the examples: an input text and the tree that the parser of an HTML
  document builds for it, which always has the root \<^verbatim>\<open>html\<close> with the children
  \<^verbatim>\<open>head\<close> and \<^verbatim>\<open>body\<close>.
\<close>

definition wrapped :: "node list \<Rightarrow> node list \<Rightarrow> node" where
  "wrapped hs bs = Element ''HTML'' [] [Element ''HEAD'' [] hs, Element ''BODY'' [] bs]"

text \<open>
  The form owner in well-nested markup: for a listed element with a \<^verbatim>\<open>form\<close> attribute
  the first element with that identifier, if it is a form; otherwise the nearest
  ancestor form.
\<close>

fun ancestorForm :: "node \<Rightarrow> position \<Rightarrow> position option" where
  "ancestorForm t [] = None"
| "ancestorForm t (k # q) =
     (case nodeAt t q of
        None \<Rightarrow> None
      | Some m \<Rightarrow> if isForm m then Some q else ancestorForm t q)"

definition staticFormOwner :: "node \<Rightarrow> position \<Rightarrow> position option" where
  "staticFormOwner t p =
     (case nodeAt t p of
        None \<Rightarrow> None
      | Some n \<Rightarrow>
          (case (if tagName n \<in> set [''BUTTON'', ''FIELDSET'', ''INPUT'', ''OBJECT'', ''OUTPUT'',
                                      ''SELECT'', ''TEXTAREA'']
                 then getAttribute n ''form'' else None) of
             Some ident \<Rightarrow>
               (case find (\<lambda>(q, m). ident \<noteq> [] \<and> getAttribute m ''id'' = Some ident)
                       (querySelectorAll t) of
                  None \<Rightarrow> None
                | Some (q, m) \<Rightarrow> if isForm m then Some q else None)
           | None \<Rightarrow> ancestorForm t p))"

definition parsed :: "node \<Rightarrow> document" where
  "parsed t = \<lparr>documentElement = t, formOwner = staticFormOwner t\<rparr>"

definition exampleDocuments :: "(string \<times> node) list" where
  "exampleDocuments =
     [(''<input>'',
         wrapped [] [Element ''INPUT'' [] []]),
      (''<input id=\"a'b\">'',
         wrapped [] [Element ''INPUT'' [(''id'', ''a'b'')] []]),
      (''<label>A</label><input><label>B</label><input>'',
         wrapped [] [Element ''LABEL'' [] [Text ''A''], Element ''INPUT'' [] [],
                     Element ''LABEL'' [] [Text ''B''], Element ''INPUT'' [] []]),
      (''<div>Hello \"World\"</div>'',
         wrapped [] [Element ''DIV'' [] [Text ''Hello \"World\"'']]),
      (''<html><head></head><body><p id=\"a\">Hi</p></body></html>'',
         wrapped [] [Element ''P'' [(''id'', ''a'')] [Text ''Hi'']]),
      (''<input id=\"user\" data-testid=\"user-input\" placeholder=\"Enter name\">'',
         wrapped [] [Element ''INPUT'' [(''id'', ''user''), (''data-testid'', ''user-input''),
                                        (''placeholder'', ''Enter name'')] []]),
      (''<a href=\"x\">Go</a><a href=\"x\">Go</a>'',
         wrapped [] [Element ''A'' [(''href'', ''x'')] [Text ''Go''],
                     Element ''A'' [(''href'', ''x'')] [Text ''Go'']]),
      (''<div data-testid=\"x\"></div><form><input name=\"tagName\"></form>'',
         wrapped [] [Element ''DIV'' [(''data-testid'', ''x'')] [],
                     Element ''FORM'' [] [Element ''INPUT'' [(''name'', ''tagName'')] []]]),
      (''<form><input type=\"hidden\" name=\"id\"><button>Save</button></form>'',
         wrapped [] [Element ''FORM'' []
                       [Element ''INPUT'' [(''type'', ''hidden''), (''name'', ''id'')] [],
                        Element ''BUTTON'' [] [Text ''Save'']]]),
      (''<img name=\"querySelectorAll\"><p>Hi</p>'',
         wrapped [] [Element ''IMG'' [(''name'', ''querySelectorAll'')] [],
                     Element ''P'' [] [Text ''Hi'']]),
      (concat (replicate 98 ''<link href=\"a\">''),
         wrapped (replicate 98 (Element ''LINK'' [(''href'', ''a'')] [])) []),
      (concat (replicate 100 ''<br>'') @ ''<p id=\"late\">x</p>'',
         wrapped [] (replicate 100 (Element ''BR'' [] []) @
                     [Element ''P'' [(''id'', ''late'')] [Text ''x'']]))]"

definition exampleBrowser :: browser where
  "exampleBrowser =
     \<lparr>parseFromString = (\<lambda>text. map_option parsed (map_of exampleDocuments text)),
      CSS_escape = cssEscape\<rparr>"

definition initialState :: "string \<Rightarrow> state" where
  "initialState text = \<lparr>html = text, selectors = None, toasts = []\<rparr>"

section \<open>Strings: facts\<close>

lemma trim_empty_iff: "trim s = [] \<longleftrightarrow> (\<forall>c\<in>set s. isWhiteSpace c)"
proof -
  have "(\<forall>x\<in>set (dropWhile isWhiteSpace s). isWhiteSpace x) \<longleftrightarrow> (\<forall>c\<in>set s. isWhiteSpace c)"
    by (induction s) auto
  then show ?thesis
    by (simp add: trim_def dropWhile_eq_Nil_conv)
qed

section \<open>The callback only appends\<close>

lemma appendAccumulators_empty [simp]:
  "appendAccumulators a emptyAccumulators = a"
  "appendAccumulators emptyAccumulators a = a"
  by (simp_all add: appendAccumulators_def emptyAccumulators_def)

lemma appendAccumulators_assoc:
  "appendAccumulators (appendAccumulators a c) d = appendAccumulators a (appendAccumulators c d)"
  by (simp add: appendAccumulators_def)

lemma appendAccumulators_sel [simp]:
  "xpaths (appendAccumulators a d) = xpaths a @ xpaths d"
  "cssSelectors (appendAccumulators a d) = cssSelectors a @ cssSelectors d"
  "dataTestIdSelectors (appendAccumulators a d) = dataTestIdSelectors a @ dataTestIdSelectors d"
  by (simp_all add: appendAccumulators_def)

lemma appendingD: "appending f \<Longrightarrow> f a = appendAccumulators a (f emptyAccumulators)"
  unfolding appending_def by blast

lemma appending_id: "appending (\<lambda>a. a)"
  unfolding appending_def by simp

lemma appending_push:
  "appending (pushXpath s)" "appending (pushCss s)" "appending (pushTestId s)"
  unfolding appending_def
  by (simp_all add: pushXpath_def pushCss_def pushTestId_def
        appendAccumulators_def emptyAccumulators_def)

lemma appending_comp:
  assumes f: "appending f" and g: "appending g"
  shows "appending (\<lambda>a. g (f a))"
proof -
  have "g (f a) = appendAccumulators a (g (f emptyAccumulators))" for a
  proof -
    have "g (f a) = appendAccumulators (f a) (g emptyAccumulators)"
      by (rule appendingD [OF g])
    also have "\<dots> = appendAccumulators (appendAccumulators a (f emptyAccumulators)) (g emptyAccumulators)"
      using appendingD [OF f, of a] by simp
    also have "\<dots> = appendAccumulators a (appendAccumulators (f emptyAccumulators) (g emptyAccumulators))"
      by (rule appendAccumulators_assoc)
    also have "\<dots> = appendAccumulators a (g (f emptyAccumulators))"
      using appendingD [OF g, of "f emptyAccumulators"] by simp
    finally show ?thesis .
  qed
  then show ?thesis unfolding appending_def by blast
qed

lemma appending_fold:
  assumes "\<And>x. appending (f x)"
  shows "appending (fold f xs)"
proof (induction xs)
  case Nil
  show ?case unfolding appending_def by simp
next
  case (Cons x xs)
  have "appending (\<lambda>a. fold f xs (f x a))"
    by (rule appending_comp [OF assms Cons.IH])
  then show ?case by (simp add: comp_def)
qed

lemma appending_push_comp:
  assumes "appending f"
  shows "appending (\<lambda>a. pushXpath s (f a))"
    and "appending (\<lambda>a. pushCss s (f a))"
    and "appending (\<lambda>a. pushTestId s (f a))"
  by (rule appending_comp [OF assms appending_push(1)],
      rule appending_comp [OF assms appending_push(2)],
      rule appending_comp [OF assms appending_push(3)])

lemma appending_if:
  assumes "c \<Longrightarrow> appending f" and "\<not> c \<Longrightarrow> appending g"
  shows "appending (\<lambda>a. if c then f a else g a)"
proof (cases c)
  case True
  then have "(\<lambda>a. if c then f a else g a) = f" by simp
  with assms(1) [OF True] show ?thesis by simp
next
  case False
  then have "(\<lambda>a. if c then f a else g a) = g" by simp
  with assms(2) [OF False] show ?thesis by simp
qed

lemma appending_option:
  assumes "v = None \<Longrightarrow> appending f" and "\<And>x. v = Some x \<Longrightarrow> appending (g x)"
  shows "appending (\<lambda>a. case v of None \<Rightarrow> f a | Some x \<Rightarrow> g x a)"
proof (cases v)
  case None
  then have "(\<lambda>a. case v of None \<Rightarrow> f a | Some x \<Rightarrow> g x a) = f" by simp
  with assms(1) [OF None] show ?thesis by simp
next
  case (Some x)
  then have "(\<lambda>a. case v of None \<Rightarrow> f a | Some x \<Rightarrow> g x a) = g x" by simp
  with assms(2) [OF Some] show ?thesis by simp
qed

lemmas appending_intros =
  appending_option appending_if appending_push_comp appending_id

lemma appending_testIdStep: "appending (testIdStep tag n attr)"
proof -
  have "appending (\<lambda>a. testIdStep tag n attr a)"
    unfolding testIdStep_def Let_def by (intro appending_intros)
  then show ?thesis .
qed

lemma appending_stableStep: "appending (stableStep tag n attr)"
proof -
  have "appending (\<lambda>a. stableStep tag n attr a)"
    unfolding stableStep_def by (intro appending_intros)
  then show ?thesis .
qed

lemma appending_testIdRule: "appending (testIdRule tag n)"
proof -
  have "appending (fold (testIdStep tag n) TEST_ID_ATTRIBUTES)"
    by (rule appending_fold) (rule appending_testIdStep)
  then show ?thesis unfolding appending_def testIdRule_def .
qed

lemma appending_stableRule: "appending (stableRule tag n)"
proof -
  have "appending (fold (stableStep tag n) STABLE_ATTRIBUTES)"
    by (rule appending_fold) (rule appending_stableStep)
  then show ?thesis unfolding appending_def stableRule_def .
qed

lemma appending_idRule: "appending (idRule b tag n)"
proof -
  have "appending (\<lambda>a. idRule b tag n a)"
    unfolding idRule_def by (intro appending_intros)
  then show ?thesis .
qed

lemma appending_parentLabelRule: "appending (parentLabelRule doc tag p)"
proof -
  have "appending (\<lambda>a. parentLabelRule doc tag p a)"
    unfolding parentLabelRule_def by (intro appending_intros)
  then show ?thesis .
qed

lemma appending_textRule: "appending (textRule tag n)"
proof -
  have "appending (\<lambda>a. textRule tag n a)"
    unfolding textRule_def Let_def by (intro appending_intros)
  then show ?thesis .
qed

lemma appending_absoluteRule: "appending (absoluteRule doc tag p)"
proof -
  have "appending (\<lambda>a. absoluteRule doc tag p a)"
    unfolding absoluteRule_def by (intro appending_intros)
  then show ?thesis .
qed


lemma fold_appending:
  assumes "\<And>x. appending (f x)"
  shows "fold f xs emptyAccumulators =
           \<lparr>xpaths = concat (map (\<lambda>x. xpaths (f x emptyAccumulators)) xs),
            cssSelectors = concat (map (\<lambda>x. cssSelectors (f x emptyAccumulators)) xs),
            dataTestIdSelectors =
              concat (map (\<lambda>x. dataTestIdSelectors (f x emptyAccumulators)) xs)\<rparr>"
proof (induction xs)
  case Nil
  show ?case by (simp add: emptyAccumulators_def)
next
  case (Cons x xs)
  have "fold f (x # xs) emptyAccumulators = fold f xs (f x emptyAccumulators)"
    by simp
  also have "\<dots> = appendAccumulators (f x emptyAccumulators) (fold f xs emptyAccumulators)"
    by (rule appendingD [OF appending_fold [OF assms]])
  finally show ?case
    by (simp add: Cons.IH appendAccumulators_def)
qed


section \<open>Steps that may raise\<close>

lemma appendingOptD:
  "appendingOpt f \<Longrightarrow> f a = map_option (appendAccumulators a) (f emptyAccumulators)"
  unfolding appendingOpt_def by blast

lemma appendingOpt_None: "appendingOpt (\<lambda>a. None)"
  unfolding appendingOpt_def by simp

lemma appendingOpt_Some:
  assumes "appending f"
  shows "appendingOpt (\<lambda>a. Some (f a))"
proof -
  have "Some (f a) = map_option (appendAccumulators a) (Some (f emptyAccumulators))" for a
    using appendingD [OF assms, of a] by simp
  then show ?thesis unfolding appendingOpt_def by blast
qed

lemma appendingOpt_if:
  assumes "c \<Longrightarrow> appendingOpt f" and "\<not> c \<Longrightarrow> appendingOpt g"
  shows "appendingOpt (\<lambda>a. if c then f a else g a)"
proof (cases c)
  case True
  then have "(\<lambda>a. if c then f a else g a) = f" by simp
  with assms(1) [OF True] show ?thesis by simp
next
  case False
  then have "(\<lambda>a. if c then f a else g a) = g" by simp
  with assms(2) [OF False] show ?thesis by simp
qed

lemma appendingOpt_option:
  assumes "v = None \<Longrightarrow> appendingOpt f" and "\<And>x. v = Some x \<Longrightarrow> appendingOpt (g x)"
  shows "appendingOpt (\<lambda>a. case v of None \<Rightarrow> f a | Some x \<Rightarrow> g x a)"
proof (cases v)
  case None
  then have "(\<lambda>a. case v of None \<Rightarrow> f a | Some x \<Rightarrow> g x a) = f" by simp
  with assms(1) [OF None] show ?thesis by simp
next
  case (Some x)
  then have "(\<lambda>a. case v of None \<Rightarrow> f a | Some x \<Rightarrow> g x a) = g x" by simp
  with assms(2) [OF Some] show ?thesis by simp
qed

lemma appendingOpt_bind:
  assumes f: "appendingOpt f" and g: "appendingOpt g"
  shows "appendingOpt (\<lambda>a. case f a of None \<Rightarrow> None | Some a' \<Rightarrow> g a')"
proof -
  have "(case f a of None \<Rightarrow> None | Some a' \<Rightarrow> g a') =
          map_option (appendAccumulators a)
            (case f emptyAccumulators of None \<Rightarrow> None | Some a' \<Rightarrow> g a')" for a
  proof (cases "f emptyAccumulators")
    case None
    then have "f a = None"
      using appendingOptD [OF f, of a] by simp
    with None show ?thesis by simp
  next
    case (Some d)
    then have fa: "f a = Some (appendAccumulators a d)"
      using appendingOptD [OF f, of a] by simp
    have "g (appendAccumulators a d) =
            map_option (appendAccumulators (appendAccumulators a d)) (g emptyAccumulators)"
      by (rule appendingOptD [OF g])
    also have "\<dots> = map_option (appendAccumulators a)
                        (map_option (appendAccumulators d) (g emptyAccumulators))"
      by (cases "g emptyAccumulators") (simp_all add: appendAccumulators_assoc)
    also have "map_option (appendAccumulators d) (g emptyAccumulators) = g d"
      by (rule appendingOptD [OF g, symmetric])
    finally show ?thesis
      by (simp add: Some fa)
  qed
  then show ?thesis unfolding appendingOpt_def by blast
qed

lemma appendingOpt_pre:
  assumes f: "appending f" and g: "appendingOpt g"
  shows "appendingOpt (\<lambda>a. g (f a))"
proof -
  have "appendingOpt (\<lambda>a. case Some (f a) of None \<Rightarrow> None | Some a' \<Rightarrow> g a')"
    by (rule appendingOpt_bind [OF appendingOpt_Some [OF f] g])
  then show ?thesis by simp
qed

lemma appendingOpt_post:
  assumes f: "appendingOpt f" and g: "appending g"
  shows "appendingOpt (\<lambda>a. case f a of None \<Rightarrow> None | Some a' \<Rightarrow> Some (g a'))"
  by (rule appendingOpt_bind [OF f appendingOpt_Some [OF g]])

lemma appendingOpt_linkedLabelRule: "appendingOpt (linkedLabelRule doc tag n)"
proof -
  have "appendingOpt (\<lambda>a. linkedLabelRule doc tag n a)"
    unfolding linkedLabelRule_def
    by (intro appendingOpt_option appendingOpt_if appendingOpt_None appendingOpt_Some
          appending_push appending_id)
  then show ?thesis .
qed

lemma appendingOpt_siblingLabelRule: "appendingOpt (siblingLabelRule doc tag p)"
proof -
  have "appendingOpt (\<lambda>a. siblingLabelRule doc tag p a)"
    unfolding siblingLabelRule_def
    by (intro appendingOpt_option appendingOpt_if appendingOpt_None appendingOpt_Some
          appending_push appending_id)
  then show ?thesis .
qed

lemma appendingOpt_labelRule: "appendingOpt (labelRule doc tag el)"
proof -
  have "appendingOpt (\<lambda>a. case linkedLabelRule doc tag (snd el) a of
              None \<Rightarrow> None
            | Some a' \<Rightarrow>
                siblingLabelRule doc tag (fst el)
                  (parentLabelRule (documentElement doc) tag (fst el) a'))"
    by (rule appendingOpt_bind [OF appendingOpt_linkedLabelRule
          appendingOpt_pre [OF appending_parentLabelRule appendingOpt_siblingLabelRule]])
  then have "appendingOpt (\<lambda>a. labelRule doc tag el a)"
    unfolding labelRule_def
    by (intro appendingOpt_if appendingOpt_Some appending_id)
  then show ?thesis .
qed

lemma appendingOpt_inspect: "appendingOpt (inspect b doc x)"
proof -
  obtain index el where x: "x = (index, el)" by (rule prod.exhaust)
  let ?tag = "toLowerCase (tagName (snd el))"
  have before: "appending (\<lambda>a. idRule b ?tag (snd el) (testIdRule ?tag (snd el) a))"
    by (rule appending_comp [OF appending_testIdRule appending_idRule])
  have after: "appending (\<lambda>a. absoluteRule doc ?tag (fst el)
                  (stableRule ?tag (snd el) (textRule ?tag (snd el) a)))"
    by (rule appending_comp [OF appending_comp [OF appending_textRule appending_stableRule]
          appending_absoluteRule])
  have rules: "appendingOpt (\<lambda>a.
      case labelRule doc ?tag el (idRule b ?tag (snd el) (testIdRule ?tag (snd el) a)) of
        None \<Rightarrow> None
      | Some a' \<Rightarrow> Some (absoluteRule doc ?tag (fst el)
                           (stableRule ?tag (snd el) (textRule ?tag (snd el) a'))))"
    by (rule appendingOpt_post [OF appendingOpt_pre [OF before appendingOpt_labelRule] after])
  have "appendingOpt (\<lambda>a. inspect b doc (index, el) a)"
    unfolding inspect_def prod.case Let_def
    by (intro appendingOpt_if appendingOpt_None appendingOpt_Some appending_id rules)
  with x show ?thesis by simp
qed

lemma appendingOpt_forEachFrom: "appendingOpt (forEachFrom b doc xs)"
proof (induction xs)
  case Nil
  have "forEachFrom b doc [] = (\<lambda>a. Some a)"
    by (rule ext) simp
  with appendingOpt_Some [OF appending_id] show ?case by simp
next
  case (Cons x xs)
  have step: "appendingOpt (\<lambda>a. case inspect b doc x a of None \<Rightarrow> None
                          | Some a' \<Rightarrow> forEachFrom b doc xs a')"
    by (rule appendingOpt_bind [OF appendingOpt_inspect Cons.IH])
  have "forEachFrom b doc (x # xs) =
          (\<lambda>a. case inspect b doc x a of None \<Rightarrow> None | Some a' \<Rightarrow> forEachFrom b doc xs a')"
    by (rule ext) simp
  with step show ?case by simp
qed

section \<open>De-duplication through a set\<close>

lemma arrayFromSet_snoc: "arrayFromSet (xs @ [x]) = setAdd x (arrayFromSet xs)"
  by (simp add: arrayFromSet_def)

lemma set_arrayFromSet: "set (arrayFromSet xs) = set xs"
  by (induction xs rule: rev_induct)
     (auto simp: arrayFromSet_snoc setAdd_def arrayFromSet_def)

lemma distinct_arrayFromSet: "distinct (arrayFromSet xs)"
  by (induction xs rule: rev_induct)
     (auto simp: arrayFromSet_snoc setAdd_def arrayFromSet_def)

lemma firstIndex_append_mem:
  "u \<in> set xs \<Longrightarrow> firstIndex (xs @ ys) u = firstIndex xs u"
  by (simp add: firstIndex_def takeWhile_append1) 

lemma firstIndex_mem_less: "u \<in> set xs \<Longrightarrow> firstIndex xs u < length xs"
  unfolding firstIndex_def by (induction xs) auto

lemma firstIndex_snoc_new: "x \<notin> set xs \<Longrightarrow> firstIndex (xs @ [x]) x = length xs"
  unfolding firstIndex_def by (induction xs) auto

lemma firstSeenOrder_arrayFromSet:
  "sorted_wrt (\<lambda>u v. firstIndex xs u < firstIndex xs v) (arrayFromSet xs)"
proof (induction xs rule: rev_induct)
  case Nil
  show ?case by (simp add: arrayFromSet_def)
next
  case (snoc x xs)
  have old: "sorted_wrt (\<lambda>u v. firstIndex (xs @ [x]) u < firstIndex (xs @ [x]) v)
               (arrayFromSet xs)"
    by (rule sorted_wrt_mono_rel [OF _ snoc.IH])
       (simp add: set_arrayFromSet firstIndex_append_mem)
  show ?case
  proof (cases "x \<in> set xs")
    case True
    then show ?thesis
      using old by (simp add: arrayFromSet_snoc setAdd_def set_arrayFromSet)
  next
    case False
    then show ?thesis
      using old
      by (simp add: arrayFromSet_snoc setAdd_def set_arrayFromSet sorted_wrt_append
            firstIndex_append_mem firstIndex_snoc_new firstIndex_mem_less)
  qed
qed

section \<open>Validation of the input\<close>

text \<open>
  Claim C5. When the input text is empty or holds white space only,
  \<^verbatim>\<open>generateSelectors\<close> shows the validation toast and returns: the stored selectors and
  the text are as before, nothing else is shown, the toast is not the one of a failed
  analysis, and the outcome is the same whatever the parser would do, since it is not
  consulted.
\<close>

theorem blank_input_is_rejected_before_parsing:
  assumes "\<forall>c\<in>set (html st). isWhiteSpace c"
  shows "generateSelectors b st =
           st\<lparr>toasts := toasts st @ [ToastError ''Please enter some HTML first'']\<rparr>
       \<and> selectors (generateSelectors b st) = selectors st
       \<and> ToastError ''Failed to analyze HTML. Please check your input.''
           \<notin> set (drop (length (toasts st)) (toasts (generateSelectors b st)))
       \<and> generateSelectors (b\<lparr>parseFromString := parser\<rparr>) st = generateSelectors b st"
proof -
  from assms have "trim (html st) = []"
    by (simp add: trim_empty_iff)
  then show ?thesis
    by (simp add: generateSelectors_def)
qed

theorem blank_input_is_rejected_before_parsing_witness:
  "list_all isWhiteSpace (html (initialState [CHR 0x20, CHR 0x0A, CHR 0x09]))
   \<and> generateSelectors exampleBrowser (initialState [CHR 0x20, CHR 0x0A, CHR 0x09]) =
       \<lparr>html = [CHR 0x20, CHR 0x0A, CHR 0x09], selectors = None,
        toasts = [ToastError ''Please enter some HTML first'']\<rparr>"
proof -
  have h: "\<forall>c\<in>set (html (initialState [CHR 0x20, CHR 0x0A, CHR 0x09])). isWhiteSpace c"
    by (simp add: initialState_def isWhiteSpace_def)
  from blank_input_is_rejected_before_parsing [OF h, of exampleBrowser]
  show ?thesis using h by (simp add: initialState_def list_all_iff)
qed



section \<open>What one element emits\<close>





lemma isForm_not_structural:
  "isForm n \<Longrightarrow> toLowerCase (tagName n) \<notin> set structuralTags"
proof -
  have "toLowerCase ''FORM'' \<notin> set structuralTags"
    by code_simp
  then show "isForm n \<Longrightarrow> toLowerCase (tagName n) \<notin> set structuralTags"
    by (simp add: isForm_def)
qed

lemma structural_not_shadowed:
  "toLowerCase (tagName (snd el)) \<in> set structuralTags \<Longrightarrow> shadowing doc el prop = []"
  using isForm_not_structural [of "snd el"] by (auto simp: shadowing_def)

lemma inspect_skipped:
  "\<not> (index < 100 \<and> toLowerCase (tagName (snd el)) \<notin> set structuralTags) \<Longrightarrow>
     inspect b doc (index, el) a = Some a"
  by (auto simp: inspect_def Let_def structural_not_shadowed)



lemma emptyAccumulators_sel:
  "xpaths emptyAccumulators = []"
  "cssSelectors emptyAccumulators = []"
  "dataTestIdSelectors emptyAccumulators = []"
  by (simp_all add: emptyAccumulators_def)

text \<open>
  A callback that reaches the rules and returns: the label rules returned, and what it
  emits is what the six rules emit, in their order.
\<close>

lemma inspect_rules:
  assumes "index < 100" and "toLowerCase (tagName (snd el)) \<notin> set structuralTags"
    and "inspect b doc (index, el) emptyAccumulators = Some d"
  shows "\<exists>l. labelRule doc (toLowerCase (tagName (snd el))) el emptyAccumulators = Some l \<and>
           d = appendAccumulators (appendAccumulators (appendAccumulators (appendAccumulators
             (appendAccumulators
               (testIdRule (toLowerCase (tagName (snd el))) (snd el) emptyAccumulators)
               (idRule b (toLowerCase (tagName (snd el))) (snd el) emptyAccumulators))
               l)
               (textRule (toLowerCase (tagName (snd el))) (snd el) emptyAccumulators))
               (stableRule (toLowerCase (tagName (snd el))) (snd el) emptyAccumulators))
               (absoluteRule doc (toLowerCase (tagName (snd el))) (fst el) emptyAccumulators)"
proof -
  let ?tag = "toLowerCase (tagName (snd el))"
  let ?t = "testIdRule ?tag (snd el) emptyAccumulators"
  let ?i = "idRule b ?tag (snd el) emptyAccumulators"
  from assms obtain a' where
    lab: "labelRule doc ?tag el (idRule b ?tag (snd el) ?t) = Some a'"
    and d: "d = absoluteRule doc ?tag (fst el) (stableRule ?tag (snd el) (textRule ?tag (snd el) a'))"
    by (auto simp: inspect_def Let_def split: if_splits option.splits)
  have ti: "idRule b ?tag (snd el) ?t = appendAccumulators ?t ?i"
    by (rule appendingD [OF appending_idRule])
  from lab obtain l where l: "labelRule doc ?tag el emptyAccumulators = Some l"
    and a': "a' = appendAccumulators (appendAccumulators ?t ?i) l"
    using appendingOptD [OF appendingOpt_labelRule, of doc ?tag el "appendAccumulators ?t ?i"]
    by (auto simp: ti)
  have "d = appendAccumulators (stableRule ?tag (snd el) (textRule ?tag (snd el) a'))
              (absoluteRule doc ?tag (fst el) emptyAccumulators)"
    unfolding d by (rule appendingD [OF appending_absoluteRule])
  also have "stableRule ?tag (snd el) (textRule ?tag (snd el) a') =
               appendAccumulators (textRule ?tag (snd el) a')
                 (stableRule ?tag (snd el) emptyAccumulators)"
    by (rule appendingD [OF appending_stableRule])
  also have "textRule ?tag (snd el) a' =
               appendAccumulators a' (textRule ?tag (snd el) emptyAccumulators)"
    by (rule appendingD [OF appending_textRule])
  finally show ?thesis
    using l a' by blast
qed


lemma testIdStep_emits:
  "testIdStep tag n attr emptyAccumulators =
     (case truthy (getAttribute n attr) of
        None \<Rightarrow> emptyAccumulators
      | Some v \<Rightarrow>
          \<lparr>xpaths = [''//'' @ tag @ ''[@'' @ attr @ ''='' @ escapeXpathText v @ '']''],
           cssSelectors = [tag @ ''['' @ attr @ ''='' @ escapeCssAttr v @ '']''],
           dataTestIdSelectors = [tag @ ''['' @ attr @ ''='' @ escapeCssAttr v @ '']'']\<rparr>)"
  by (simp add: testIdStep_def Let_def pushXpath_def pushCss_def pushTestId_def
        emptyAccumulators_def split: option.splits)

lemma testIdRule_emits:
  "testIdRule tag n emptyAccumulators =
     \<lparr>xpaths = concat (map (\<lambda>attr. xpaths (testIdStep tag n attr emptyAccumulators))
                  TEST_ID_ATTRIBUTES),
      cssSelectors = concat (map (\<lambda>attr. cssSelectors (testIdStep tag n attr emptyAccumulators))
                  TEST_ID_ATTRIBUTES),
      dataTestIdSelectors =
        concat (map (\<lambda>attr. dataTestIdSelectors (testIdStep tag n attr emptyAccumulators))
                  TEST_ID_ATTRIBUTES)\<rparr>"
  unfolding testIdRule_def
  by (rule fold_appending) (rule appending_testIdStep)

lemma testIdStep_testIds_eq_css:
  "dataTestIdSelectors (testIdStep tag n attr emptyAccumulators) =
     cssSelectors (testIdStep tag n attr emptyAccumulators)"
  by (cases "truthy (getAttribute n attr)")
     (simp_all add: testIdStep_emits emptyAccumulators_sel)

lemma testIdRule_testIds_eq_css:
  "dataTestIdSelectors (testIdRule tag n emptyAccumulators) =
     cssSelectors (testIdRule tag n emptyAccumulators)"
  by (simp add: testIdRule_emits testIdStep_testIds_eq_css)


lemma idRule_testIds: "dataTestIdSelectors (idRule b tag n emptyAccumulators) = []"
  by (simp add: idRule_def pushXpath_def pushCss_def emptyAccumulators_def split: option.splits)

lemma labelRule_testIds:
  "labelRule doc tag el emptyAccumulators = Some l \<Longrightarrow> dataTestIdSelectors l = []"
  by (auto simp: labelRule_def linkedLabelRule_def parentLabelRule_def siblingLabelRule_def
        pushXpath_def pushCss_def emptyAccumulators_def split: option.splits if_splits)

lemma textRule_testIds: "dataTestIdSelectors (textRule tag n emptyAccumulators) = []"
  by (simp add: textRule_def Let_def pushXpath_def emptyAccumulators_def)

lemma stableStep_testIds:
  "dataTestIdSelectors (stableStep tag n attr emptyAccumulators) = []"
  by (simp add: stableStep_def pushXpath_def pushCss_def emptyAccumulators_def
        split: option.splits)

lemma stableRule_testIds: "dataTestIdSelectors (stableRule tag n emptyAccumulators) = []"
proof -
  have "stableRule tag n emptyAccumulators =
     \<lparr>xpaths = concat (map (\<lambda>attr. xpaths (stableStep tag n attr emptyAccumulators))
                  STABLE_ATTRIBUTES),
      cssSelectors = concat (map (\<lambda>attr. cssSelectors (stableStep tag n attr emptyAccumulators))
                  STABLE_ATTRIBUTES),
      dataTestIdSelectors =
        concat (map (\<lambda>attr. dataTestIdSelectors (stableStep tag n attr emptyAccumulators))
                  STABLE_ATTRIBUTES)\<rparr>"
    unfolding stableRule_def
    by (rule fold_appending) (rule appending_stableStep)
  then show ?thesis
    by (simp add: stableStep_testIds)
qed

lemma absoluteRule_testIds:
  "dataTestIdSelectors (absoluteRule doc tag p emptyAccumulators) = []"
  by (simp add: absoluteRule_def pushXpath_def emptyAccumulators_def split: option.splits)

lemmas rule_testIds =
  idRule_testIds textRule_testIds stableRule_testIds absoluteRule_testIds







section \<open>What the pass collects\<close>

lemma forEachFrom_emits:
  assumes "forEachFrom b doc xs emptyAccumulators = Some acc"
  shows "acc = \<lparr>xpaths = concat (map (\<lambda>x. xpaths (emits b doc x)) xs),
               cssSelectors = concat (map (\<lambda>x. cssSelectors (emits b doc x)) xs),
               dataTestIdSelectors = concat (map (\<lambda>x. dataTestIdSelectors (emits b doc x)) xs)\<rparr>
       \<and> (\<forall>x\<in>set xs. inspect b doc x emptyAccumulators = Some (emits b doc x))"
  using assms
proof (induction xs arbitrary: acc)
  case Nil
  then show ?case by (simp add: emptyAccumulators_def)
next
  case (Cons x xs)
  from Cons.prems obtain d where d: "inspect b doc x emptyAccumulators = Some d"
    and rest: "forEachFrom b doc xs d = Some acc"
    by (auto split: option.splits)
  from d have e: "emits b doc x = d"
    by (simp add: emits_def)
  from rest obtain r where r: "forEachFrom b doc xs emptyAccumulators = Some r"
    and acc: "acc = appendAccumulators d r"
    using appendingOptD [OF appendingOpt_forEachFrom, of b doc xs d] by auto
  from Cons.IH [OF r] d e acc show ?case
    by (simp add: appendAccumulators_def)
qed

lemma generateSelectors_succeeded:
  assumes "parseFromString b (html st) = Some doc"
    and "toasts (generateSelectors b st) =
           toasts st @ [ToastSuccess ''Advanced selectors generated successfully!'']"
  shows "\<exists>a. collect b doc = Some a
            \<and> forEach b doc (querySelectorAll (documentElement doc)) emptyAccumulators = Some a
            \<and> selectors (generateSelectors b st) = Some (selectorsOf a)"
  using assms
  by (auto simp: generateSelectors_def analysisFailed_def collect_def
        split: if_splits option.splits)


lemma parse_example:
  "map_of exampleDocuments text = Some t \<Longrightarrow>
     parseFromString exampleBrowser text = Some (parsed t)"
  by (simp add: exampleBrowser_def)

section \<open>The cap\<close>






section \<open>The skip list\<close>

text \<open>
  Claim C7. The callback returns with the three arrays as they are for an element whose
  lower-cased tag name is one of \<^verbatim>\<open>html\<close>, \<^verbatim>\<open>head\<close>, \<^verbatim>\<open>body\<close>, \<^verbatim>\<open>script\<close>, \<^verbatim>\<open>style\<close>,
  \<^verbatim>\<open>meta\<close>, \<^verbatim>\<open>title\<close>, at every index. For the document of
  \<^verbatim>\<open><html><head></head><body><p id="a">Hi</p></body></html>\<close> every selector stored has
  the tag token \<^verbatim>\<open>p\<close>.
\<close>

theorem structural_tags_are_skipped:
  "(toLowerCase (tagName (snd el)) \<in> set structuralTags \<longrightarrow>
      inspect b doc (index, el) a = Some a)
   \<and> (parseFromString b ''<html><head></head><body><p id=\"a\">Hi</p></body></html>'' =
         Some \<lparr>documentElement = wrapped [] [Element ''P'' [(''id'', ''a'')] [Text ''Hi'']],
               formOwner = owner\<rparr> \<longrightarrow>
       selectors (generateSelectors b
         (initialState ''<html><head></head><body><p id=\"a\">Hi</p></body></html>'')) =
       Some \<lparr>xpath = [''//p[@id='a']'', ''//p[normalize-space(text())='Hi']'',
                      ''//p[contains(normalize-space(text()), 'Hi')]''],
             css = [''p#'' @ CSS_escape b ''a''],
             testIds = [''No data-test* attributes found'']\<rparr>)"
proof -
  let ?text = "''<html><head></head><body><p id=\"a\">Hi</p></body></html>''"
  let ?doc = "\<lparr>documentElement = wrapped [] [Element ''P'' [(''id'', ''a'')] [Text ''Hi'']],
                formOwner = owner\<rparr>"
  have out: "map_option selectorsOf (collect b ?doc) =
       Some \<lparr>xpath = [''//p[@id='a']'', ''//p[normalize-space(text())='Hi']'',
                 ''//p[contains(normalize-space(text()), 'Hi')]''],
        css = [''p#'' @ CSS_escape b ''a''],
        testIds = [''No data-test* attributes found'']\<rparr>"
    by code_simp
  have nonblank: "trim (html (initialState ?text)) \<noteq> []"
    by code_simp
  have "selectors (generateSelectors b (initialState ?text)) =
          map_option selectorsOf (collect b ?doc)"
    if "parseFromString b ?text = Some ?doc"
  proof -
    from that have "parseFromString b (html (initialState ?text)) = Some ?doc"
      by (simp add: initialState_def)
    with nonblank out show ?thesis
      by (auto simp: generateSelectors_def)
  qed
  then show ?thesis
    by (simp only: out inspect_skipped) (simp add: inspect_skipped)
qed

theorem structural_tags_are_skipped_witness:
  "inspect exampleBrowser (parsed (wrapped [] [Element ''P'' [(''id'', ''a'')] [Text ''Hi'']]))
     (0, ([], wrapped [] [Element ''P'' [(''id'', ''a'')] [Text ''Hi'']]))
     emptyAccumulators = Some emptyAccumulators
   \<and> selectors (generateSelectors exampleBrowser
         (initialState ''<html><head></head><body><p id=\"a\">Hi</p></body></html>'')) =
       Some \<lparr>xpath = [''//p[@id='a']'', ''//p[normalize-space(text())='Hi']'',
                      ''//p[contains(normalize-space(text()), 'Hi')]''],
             css = [''p#a''],
             testIds = [''No data-test* attributes found'']\<rparr>"
proof -
  let ?text = "''<html><head></head><body><p id=\"a\">Hi</p></body></html>''"
  let ?tree = "wrapped [] [Element ''P'' [(''id'', ''a'')] [Text ''Hi'']]"
  have h1: "toLowerCase (tagName (snd ([]::position, ?tree))) \<in> set structuralTags"
    by code_simp
  have "map_of exampleDocuments ?text = Some ?tree"
    by code_simp
  then have h2: "parseFromString exampleBrowser ?text =
                   Some \<lparr>documentElement = ?tree, formOwner = staticFormOwner ?tree\<rparr>"
    using parse_example [of ?text ?tree] by (simp add: parsed_def)
  have h3: "CSS_escape exampleBrowser ''a'' = ''a''"
    by code_simp
  from structural_tags_are_skipped
         [of "([], ?tree)" exampleBrowser "parsed ?tree" 0 emptyAccumulators
             "staticFormOwner ?tree"] h1 h2 h3
  show ?thesis by simp
qed


section \<open>The stored sequences\<close>

lemma emitted_testIds_in_css:
  "set (dataTestIdSelectors (emits b doc x)) \<subseteq> set (cssSelectors (emits b doc x))"
proof -
  obtain index el where x: "x = (index, el)" by (rule prod.exhaust)
  show ?thesis
  proof (cases "inspect b doc (index, el) emptyAccumulators")
    case None
    then show ?thesis
      by (simp add: x emits_def emptyAccumulators_sel)
  next
    case (Some d)
    show ?thesis
    proof (cases "index < 100 \<and> toLowerCase (tagName (snd el)) \<notin> set structuralTags")
      case True
      with inspect_rules [OF _ _ Some] obtain l where
        "d = appendAccumulators (appendAccumulators (appendAccumulators (appendAccumulators
             (appendAccumulators
               (testIdRule (toLowerCase (tagName (snd el))) (snd el) emptyAccumulators)
               (idRule b (toLowerCase (tagName (snd el))) (snd el) emptyAccumulators))
               l)
               (textRule (toLowerCase (tagName (snd el))) (snd el) emptyAccumulators))
               (stableRule (toLowerCase (tagName (snd el))) (snd el) emptyAccumulators))
               (absoluteRule doc (toLowerCase (tagName (snd el))) (fst el) emptyAccumulators)"
        and "labelRule doc (toLowerCase (tagName (snd el))) el emptyAccumulators = Some l"
        by blast
      then show ?thesis
        by (simp add: x emits_def Some rule_testIds labelRule_testIds testIdRule_testIds_eq_css)
    next
      case False
      from Some inspect_skipped [OF False, of b doc emptyAccumulators]
      show ?thesis
        by (simp add: x emits_def emptyAccumulators_sel)
    qed
  qed
qed

text \<open>
  Claim C10. After a call that succeeds, when the stored test-id sequence is not the
  sentinel alone, every string of it is also in the stored CSS sequence.
\<close>

theorem test_ids_are_css_selectors:
  assumes "trim (html st) \<noteq> []" and "parseFromString b (html st) = Some doc"
    and "toasts (generateSelectors b st) =
           toasts st @ [ToastSuccess ''Advanced selectors generated successfully!'']"
    and "selectors (generateSelectors b st) = Some sel"
    and "testIds sel \<noteq> [noTestIdsFound]"
  shows "set (testIds sel) \<subseteq> set (css sel)"
proof -
  from generateSelectors_succeeded [OF assms(2,3)] assms(4) obtain a where
    a: "forEach b doc (querySelectorAll (documentElement doc)) emptyAccumulators = Some a"
    and sel: "sel = selectorsOf a"
    by auto
  from forEachFrom_emits [OF a [unfolded forEach_def]]
  have sub: "set (dataTestIdSelectors a) \<subseteq> set (cssSelectors a)"
    using emitted_testIds_in_css [of b doc]
    by (simp only: accumulators.simps set_concat set_map) blast
  have "dataTestIdSelectors a \<noteq> []"
    using assms(5) by (auto simp: sel selectorsOf_def arrayFromSet_def setAdd_def)
  then show ?thesis
    using sub by (simp add: sel selectorsOf_def set_arrayFromSet)
qed

theorem test_ids_are_css_selectors_witness:
  "generateSelectors exampleBrowser (initialState
      ''<input id=\"user\" data-testid=\"user-input\" placeholder=\"Enter name\">'') =
     \<lparr>html = ''<input id=\"user\" data-testid=\"user-input\" placeholder=\"Enter name\">'',
      selectors =
        Some \<lparr>xpath = [''//input[@data-testid='user-input']'', ''//input[@id='user']'',
                       ''//input[@placeholder='Enter name']'', ''//*[@id='user']''],
              css = [''input[data-testid=\"user-input\"]'', ''input#user'',
                     ''input[placeholder=\"Enter name\"]''],
              testIds = [''input[data-testid=\"user-input\"]'']\<rparr>,
      toasts = [ToastSuccess ''Advanced selectors generated successfully!'']\<rparr>
   \<and> set [''input[data-testid=\"user-input\"]''] \<subseteq>
       set [''input[data-testid=\"user-input\"]'', ''input#user'',
            ''input[placeholder=\"Enter name\"]'']"
proof -
  let ?text = "''<input id=\"user\" data-testid=\"user-input\" placeholder=\"Enter name\">''"
  let ?tree = "wrapped [] [Element ''INPUT'' [(''id'', ''user''), (''data-testid'', ''user-input''),
                                        (''placeholder'', ''Enter name'')] []]"
  let ?sel = "\<lparr>xpath = [''//input[@data-testid='user-input']'', ''//input[@id='user']'',
                    ''//input[@placeholder='Enter name']'', ''//*[@id='user']''],
           css = [''input[data-testid=\"user-input\"]'', ''input#user'',
                  ''input[placeholder=\"Enter name\"]''],
           testIds = [''input[data-testid=\"user-input\"]'']\<rparr>"
  have h1: "trim (html (initialState ?text)) \<noteq> []"
    by code_simp
  have "map_of exampleDocuments ?text = Some ?tree"
    by code_simp
  then have h2: "parseFromString exampleBrowser (html (initialState ?text)) = Some (parsed ?tree)"
    using parse_example [of ?text ?tree] by (simp add: initialState_def)
  have run: "generateSelectors exampleBrowser (initialState ?text) =
      \<lparr>html = ?text, selectors = Some ?sel,
       toasts = [ToastSuccess ''Advanced selectors generated successfully!'']\<rparr>"
    by code_simp
  have h3: "toasts (generateSelectors exampleBrowser (initialState ?text)) =
      toasts (initialState ?text) @ [ToastSuccess ''Advanced selectors generated successfully!'']"
    unfolding run by (simp add: initialState_def)
  have h4: "selectors (generateSelectors exampleBrowser (initialState ?text)) = Some ?sel"
    by (simp add: run)
  have h5: "testIds ?sel \<noteq> [noTestIdsFound]"
    by code_simp
  from test_ids_are_css_selectors [OF h1 h2 h3 h4 h5] run
  show ?thesis by simp
qed







text \<open>
  Claim C4. After a call that succeeds each of the three stored sequences has no string
  twice, holds exactly the strings pushed to its array during the pass (for the test
  ids: the sentinel when nothing was pushed), and lists them in the order of their
  first push.
\<close>

theorem outputs_are_duplicate_free_in_first_seen_order:
  assumes "trim (html st) \<noteq> []" and "parseFromString b (html st) = Some doc"
    and "toasts (generateSelectors b st) =
           toasts st @ [ToastSuccess ''Advanced selectors generated successfully!'']"
    and "selectors (generateSelectors b st) = Some sel"
  shows "distinct (xpath sel) \<and> distinct (css sel) \<and> distinct (testIds sel)
       \<and> (\<exists>a. forEach b doc (querySelectorAll (documentElement doc)) emptyAccumulators = Some a
            \<and> (let t = (if dataTestIdSelectors a \<noteq> [] then dataTestIdSelectors a
                        else [noTestIdsFound])
               in set (xpath sel) = set (xpaths a)
                \<and> sorted_wrt (\<lambda>u v. firstIndex (xpaths a) u < firstIndex (xpaths a) v) (xpath sel)
                \<and> set (css sel) = set (cssSelectors a)
                \<and> sorted_wrt (\<lambda>u v. firstIndex (cssSelectors a) u < firstIndex (cssSelectors a) v)
                     (css sel)
                \<and> set (testIds sel) = set t
                \<and> sorted_wrt (\<lambda>u v. firstIndex t u < firstIndex t v) (testIds sel)))"
proof -
  from generateSelectors_succeeded [OF assms(2,3)] assms(4) obtain a where
    a: "forEach b doc (querySelectorAll (documentElement doc)) emptyAccumulators = Some a"
    and sel: "sel = selectorsOf a"
    by auto
  have "distinct (xpath sel) \<and> distinct (css sel) \<and> distinct (testIds sel)"
    unfolding sel selectorsOf_def Selectors.simps
    by (intro conjI distinct_arrayFromSet)
  moreover have "let t = (if dataTestIdSelectors a \<noteq> [] then dataTestIdSelectors a
                        else [noTestIdsFound])
               in set (xpath sel) = set (xpaths a)
                \<and> sorted_wrt (\<lambda>u v. firstIndex (xpaths a) u < firstIndex (xpaths a) v) (xpath sel)
                \<and> set (css sel) = set (cssSelectors a)
                \<and> sorted_wrt (\<lambda>u v. firstIndex (cssSelectors a) u < firstIndex (cssSelectors a) v)
                     (css sel)
                \<and> set (testIds sel) = set t
                \<and> sorted_wrt (\<lambda>u v. firstIndex t u < firstIndex t v) (testIds sel)"
    unfolding sel selectorsOf_def Let_def Selectors.simps
    by (intro conjI set_arrayFromSet firstSeenOrder_arrayFromSet)
  ultimately show ?thesis
    using a by blast
qed

theorem outputs_are_duplicate_free_in_first_seen_order_witness:
  "map_option xpaths (forEach exampleBrowser
       (parsed (wrapped [] [Element ''A'' [(''href'', ''x'')] [Text ''Go''],
                            Element ''A'' [(''href'', ''x'')] [Text ''Go'']]))
       (querySelectorAll (wrapped [] [Element ''A'' [(''href'', ''x'')] [Text ''Go''],
                    Element ''A'' [(''href'', ''x'')] [Text ''Go'']]))
       emptyAccumulators) =
     Some [''//a[normalize-space(text())='Go']'', ''//a[contains(normalize-space(text()), 'Go')]'',
      ''//a[@href='x']'', ''/html/body[1]/a[1]'',
      ''//a[normalize-space(text())='Go']'', ''//a[contains(normalize-space(text()), 'Go')]'',
      ''//a[@href='x']'', ''/html/body[1]/a[2]'']
   \<and> generateSelectors exampleBrowser
        (initialState ''<a href=\"x\">Go</a><a href=\"x\">Go</a>'') =
     \<lparr>html = ''<a href=\"x\">Go</a><a href=\"x\">Go</a>'',
      selectors =
        Some \<lparr>xpath = [''//a[normalize-space(text())='Go']'',
                       ''//a[contains(normalize-space(text()), 'Go')]'',
                       ''//a[@href='x']'', ''/html/body[1]/a[1]'', ''/html/body[1]/a[2]''],
              css = [''a[href=\"x\"]''],
              testIds = [''No data-test* attributes found'']\<rparr>,
      toasts = [ToastSuccess ''Advanced selectors generated successfully!'']\<rparr>
   \<and> distinct [''//a[normalize-space(text())='Go']'',
                 ''//a[contains(normalize-space(text()), 'Go')]'',
                 ''//a[@href='x']'', ''/html/body[1]/a[1]'', ''/html/body[1]/a[2]'']
   \<and> distinct [''a[href=\"x\"]''] \<and> distinct [''No data-test* attributes found'']"
proof -
  let ?text = "''<a href=\"x\">Go</a><a href=\"x\">Go</a>''"
  let ?tree = "wrapped [] [Element ''A'' [(''href'', ''x'')] [Text ''Go''],
                           Element ''A'' [(''href'', ''x'')] [Text ''Go'']]"
  let ?sel = "\<lparr>xpath = [''//a[normalize-space(text())='Go']'',
                    ''//a[contains(normalize-space(text()), 'Go')]'',
                    ''//a[@href='x']'', ''/html/body[1]/a[1]'', ''/html/body[1]/a[2]''],
           css = [''a[href=\"x\"]''],
           testIds = [''No data-test* attributes found'']\<rparr>"
  have h1: "trim (html (initialState ?text)) \<noteq> []"
    by code_simp
  have "map_of exampleDocuments ?text = Some ?tree"
    by code_simp
  then have h2: "parseFromString exampleBrowser (html (initialState ?text)) = Some (parsed ?tree)"
    using parse_example [of ?text ?tree] by (simp add: initialState_def)
  have run: "generateSelectors exampleBrowser (initialState ?text) =
      \<lparr>html = ?text, selectors = Some ?sel,
       toasts = [ToastSuccess ''Advanced selectors generated successfully!'']\<rparr>"
    by code_simp
  have h3: "toasts (generateSelectors exampleBrowser (initialState ?text)) =
      toasts (initialState ?text) @ [ToastSuccess ''Advanced selectors generated successfully!'']"
    unfolding run by (simp add: initialState_def)
  have h3': "selectors (generateSelectors exampleBrowser (initialState ?text)) = Some ?sel"
    by (simp add: run)
  have h4: "map_option xpaths (forEach exampleBrowser (parsed ?tree) (querySelectorAll ?tree)
              emptyAccumulators) =
     Some [''//a[normalize-space(text())='Go']'', ''//a[contains(normalize-space(text()), 'Go')]'',
      ''//a[@href='x']'', ''/html/body[1]/a[1]'',
      ''//a[normalize-space(text())='Go']'', ''//a[contains(normalize-space(text()), 'Go')]'',
      ''//a[@href='x']'', ''/html/body[1]/a[2]'']"
    by code_simp
  from outputs_are_duplicate_free_in_first_seen_order [OF h1 h2 h3 h3']
  have "distinct (xpath ?sel) \<and> distinct (css ?sel) \<and> distinct (testIds ?sel)"
    by blast
  then have "distinct [''//a[normalize-space(text())='Go']'',
                 ''//a[contains(normalize-space(text()), 'Go')]'',
                 ''//a[@href='x']'', ''/html/body[1]/a[1]'', ''/html/body[1]/a[2]'']
      \<and> distinct [''a[href=\"x\"]''] \<and> distinct [''No data-test* attributes found'']"
    by (simp only: Selectors.simps)
  with run h4 show ?thesis by blast
qed


section \<open>The cap and the wrapper elements\<close>

lemma capped_filter_enumerate:
  assumes "\<And>i x. P (i, x) \<Longrightarrow> i < n"
  shows "length (filter P (enumerate k xs)) \<le> n - k"
proof (induction xs arbitrary: k)
  case Nil
  show ?case by simp
next
  case (Cons x xs)
  show ?case
  proof (cases "P (k, x)")
    case True
    with assms have "k < n" by blast
    with Cons [of "Suc k"] True show ?thesis by simp
  next
    case False
    with Cons [of "Suc k"] show ?thesis by simp
  qed
qed

lemma querySelectorAll_wrapper:
  "querySelectorAll (Element t0 a0 [Element t1 a1 hs, Element t2 a2 bs]) =
     ([], Element t0 a0 [Element t1 a1 hs, Element t2 a2 bs]) #
     ([0], Element t1 a1 hs) # subtrees [0] 0 hs @
     ([1], Element t2 a2 bs) # subtrees [1] 0 bs"
  by (simp add: querySelectorAll_def)

lemma inspectedElements_wrapper:
  assumes "toLowerCase t0 \<in> set structuralTags" and "toLowerCase t1 \<in> set structuralTags"
    and "toLowerCase t2 \<in> set structuralTags"
  shows "inspectedElements (Element t0 a0 [Element t1 a1 hs, Element t2 a2 bs]) =
     filter (\<lambda>(index, el). index < 100 \<and> toLowerCase (tagName (snd el)) \<notin> set structuralTags)
       (enumerate 2 (subtrees [0] 0 hs)) @
     filter (\<lambda>(index, el). index < 100 \<and> toLowerCase (tagName (snd el)) \<notin> set structuralTags)
       (enumerate (3 + length (subtrees [0] 0 hs)) (subtrees [1] 0 bs))"
  using assms
  by (simp add: inspectedElements_def querySelectorAll_wrapper enumerate_append_eq
        numeral_2_eq_2 numeral_3_eq_3)

text \<open>
  Claim C9, as amended. The index that the cap tests counts every element of the
  pre-order list, the skipped structural ones included: for an element that is not
  among the inspected ones the callback returns with the arrays as they are. In a
  document whose root \<^verbatim>\<open>html\<close> has the children \<^verbatim>\<open>head\<close> and \<^verbatim>\<open>body\<close>, the root and
  \<^verbatim>\<open>head\<close> take the indices 0 and 1, so at most 98 other elements are inspected; when
  \<^verbatim>\<open>body\<close> is among the first 100 elements (\<^verbatim>\<open>head\<close> has at most 97 descendants) it
  takes a slot too and at most 97 are inspected.
\<close>

theorem wrapper_elements_consume_cap_slots:
  "(\<forall>x \<in> set (enumerate 0 (querySelectorAll (documentElement doc))).
       x \<notin> set (inspectedElements (documentElement doc)) \<longrightarrow> inspect b doc x a = Some a)
   \<and> length (inspectedElements
         (Element ''HTML'' a0 [Element ''HEAD'' a1 hs, Element ''BODY'' a2 bs])) \<le> 98
   \<and> (length (subtrees [0] 0 hs) \<le> 97 \<longrightarrow>
       length (inspectedElements
         (Element ''HTML'' a0 [Element ''HEAD'' a1 hs, Element ''BODY'' a2 bs])) \<le> 97)"
proof -
  let ?P = "\<lambda>(index, el). index < (100::nat) \<and>
              toLowerCase (tagName (snd (el::element))) \<notin> set structuralTags"
  let ?H = "subtrees [0] 0 hs"
  let ?B = "subtrees [1] 0 bs"
  have tags: "toLowerCase ''HTML'' \<in> set structuralTags"
    "toLowerCase ''HEAD'' \<in> set structuralTags" "toLowerCase ''BODY'' \<in> set structuralTags"
    by code_simp+
  note split = inspectedElements_wrapper [OF tags, of a0 a1 hs a2 bs]
  have skipped: "inspect b doc x a = Some a"
    if "x \<in> set (enumerate 0 (querySelectorAll (documentElement doc)))"
       "x \<notin> set (inspectedElements (documentElement doc))" for x
  proof -
    obtain index el where x: "x = (index, el)" by (rule prod.exhaust)
    from that have "\<not> (index < 100 \<and> toLowerCase (tagName (snd el)) \<notin> set structuralTags)"
      by (auto simp: inspectedElements_def x)
    then show ?thesis
      unfolding x by (rule inspect_skipped)
  qed
  have headPart: "length (filter ?P (enumerate 2 ?H)) \<le> 100 - 2"
    by (rule capped_filter_enumerate) auto
  have headPart': "length (filter ?P (enumerate 2 ?H)) \<le> length ?H"
    using length_filter_le [of ?P "enumerate 2 ?H"] by simp
  have bodyPart: "length (filter ?P (enumerate (3 + length ?H) ?B)) \<le> 100 - (3 + length ?H)"
    by (rule capped_filter_enumerate) auto
  have whole: "length (inspectedElements
         (Element ''HTML'' a0 [Element ''HEAD'' a1 hs, Element ''BODY'' a2 bs])) \<le> 98"
    unfolding split using headPart headPart' bodyPart by simp
  have less: "length (inspectedElements
         (Element ''HTML'' a0 [Element ''HEAD'' a1 hs, Element ''BODY'' a2 bs])) \<le> 97"
    if "length ?H \<le> 97"
    unfolding split using that headPart' bodyPart by simp
  from skipped whole less show ?thesis by blast
qed

theorem wrapper_elements_consume_cap_slots_witness:
  "length (subtrees [0] 0 []) \<le> 97
   \<and> length (inspectedElements (wrapped [] (replicate 101 (Element ''INPUT'' [] [])))) \<le> 97
   \<and> inspect exampleBrowser (parsed (wrapped [] (replicate 101 (Element ''INPUT'' [] []))))
        (2, ([1], Element ''BODY'' [] (replicate 101 (Element ''INPUT'' [] []))))
        emptyAccumulators = Some emptyAccumulators"
proof -
  let ?tree = "wrapped [] (replicate 101 (Element ''INPUT'' [] []))"
  let ?body = "([1::nat], Element ''BODY'' [] (replicate 101 (Element ''INPUT'' [] [])))"
  have h0: "documentElement (parsed ?tree) = ?tree"
    by (simp add: parsed_def)
  have h1: "length (subtrees [0] 0 []) \<le> 97"
    by simp
  have h2: "(2, ?body) \<in> set (enumerate 0 (querySelectorAll (documentElement (parsed ?tree))))"
    unfolding h0 by (simp add: wrapped_def querySelectorAll_wrapper)
  have h3: "(2, ?body) \<notin> set (inspectedElements (documentElement (parsed ?tree)))"
    unfolding h0 by (simp add: inspectedElements_def) code_simp
  note all = wrapper_elements_consume_cap_slots
    [of "parsed ?tree" exampleBrowser emptyAccumulators "[]" "[]" "[]" "[]"
        "replicate 101 (Element ''INPUT'' [] [])"]
  from all have "inspect exampleBrowser (parsed ?tree) (2, ?body) emptyAccumulators =
      Some emptyAccumulators"
    using h2 h3 by blast
  moreover from all h1
  have "length (inspectedElements ?tree) \<le> 97"
    unfolding wrapped_def by blast
  ultimately show ?thesis using h1 by blast
qed

text \<open>
  Claim C9 as stated fails for a fragment of 98 \<^verbatim>\<open>link\<close> elements: the parser puts them
  into \<^verbatim>\<open>head\<close>, \<^verbatim>\<open>body\<close> comes at index 100, and all 98 are inspected.
\<close>

theorem bare_fragment_of_head_content_counterexample:
  "map_option documentElement (parseFromString exampleBrowser (concat (replicate 98 ''<link href=\"a\">''))) =
     Some (wrapped (replicate 98 (Element ''LINK'' [(''href'', ''a'')] [])) [])
   \<and> length (inspectedElements
        (wrapped (replicate 98 (Element ''LINK'' [(''href'', ''a'')] [])) [])) = 98
   \<and> \<not> length (inspectedElements
        (wrapped (replicate 98 (Element ''LINK'' [(''href'', ''a'')] [])) [])) \<le> 97
   \<and> map_option (\<lambda>a. (xpaths a, cssSelectors a))
        (collect exampleBrowser
          (parsed (wrapped (replicate 98 (Element ''LINK'' [(''href'', ''a'')] [])) []))) =
       Some (replicate 98 ''//link[@href='a']'', replicate 98 ''link[href=\"a\"]'')"
  by code_simp

section \<open>Absolute paths and labels\<close>

text \<open>
  Claim C1, at the input \<^verbatim>\<open><input>\<close>. The element \<^verbatim>\<open>body\<close> of the parsed document is not
  the object \<^verbatim>\<open>document.body\<close> of the page, so the walk does not stop at it with
  \<^verbatim>\<open>/html/body\<close>: it gets the positional segment \<^verbatim>\<open>body[1]\<close> below \<^verbatim>\<open>/html\<close>, and the
  path stored for the input is \<^verbatim>\<open>/html/body[1]/input[1]\<close>.
\<close>

theorem absolute_path_of_input_under_body:
  "map_option documentElement (parseFromString exampleBrowser ''<input>'') = Some (wrapped [] [Element ''INPUT'' [] []])
   \<and> (ParsedDocument, [1]) \<noteq> document_body
   \<and> getXPathTo ParsedDocument (parsed (wrapped [] [Element ''INPUT'' [] []])) [1] =
       Some ''/html/body[1]''
   \<and> getXPathTo ParsedDocument (parsed (wrapped [] [Element ''INPUT'' [] []])) [0, 1] =
       Some ''/html/body[1]/input[1]''
   \<and> selectors (generateSelectors exampleBrowser (initialState ''<input>'')) =
       Some \<lparr>xpath = [''/html/body[1]/input[1]''], css = [],
             testIds = [''No data-test* attributes found'']\<rparr>"
  by code_simp

text \<open>
  Claim C2, at the input \<^verbatim>\<open><input id="a'b">\<close>. Rule 2 passes the identifier through
  \<^verbatim>\<open>escapeXpathText\<close> and wraps it in double quotes; \<^verbatim>\<open>getXPathTo\<close> puts it between
  single quotes as it is. The text of \<^verbatim>\<open><div>Hello "World"</div>\<close> is wrapped in single
  quotes, as the claim says.
\<close>

theorem absolute_path_does_not_escape_id:
  "map_option documentElement (parseFromString exampleBrowser ''<input id=\"a'b\">'') =
     Some (wrapped [] [Element ''INPUT'' [(''id'', ''a'b'')] []])
   \<and> escapeXpathText ''a'b'' = ''\"a'b\"''
   \<and> getXPathTo ParsedDocument
         (parsed (wrapped [] [Element ''INPUT'' [(''id'', ''a'b'')] []])) [0, 1] =
       Some ''//*[@id='a'b']''
   \<and> map_option xpath (selectors (generateSelectors exampleBrowser
         (initialState ''<input id=\"a'b\">''))) =
       Some [''//input[@id=\"a'b\"]'', ''//*[@id='a'b']'']
   \<and> map_option xpath (selectors (generateSelectors exampleBrowser
         (initialState ''<div>Hello \"World\"</div>''))) =
       Some [''//div[normalize-space(text())='Hello \"World\"']'',
             ''//div[contains(normalize-space(text()), 'Hello \"World\"')]'']"
  by code_simp

text \<open>
  Claim C8, at the input \<^verbatim>\<open><label>A</label><input><label>B</label><input>\<close>. The second
  input follows the label B at once, but \<^verbatim>\<open>el.parentElement?.querySelector("label")\<close>
  finds the label A, whose next sibling is the first input: nothing is stored for the
  label B.
\<close>

theorem sibling_label_after_the_first_is_missed:
  "map_option documentElement (parseFromString exampleBrowser ''<label>A</label><input><label>B</label><input>'') =
     Some (wrapped [] [Element ''LABEL'' [] [Text ''A''], Element ''INPUT'' [] [],
                       Element ''LABEL'' [] [Text ''B''], Element ''INPUT'' [] []])
   \<and> map_option fst (nextElementSibling
         (wrapped [] [Element ''LABEL'' [] [Text ''A''], Element ''INPUT'' [] [],
                      Element ''LABEL'' [] [Text ''B''], Element ''INPUT'' [] []]) [2, 1]) =
       Some [3, 1]
   \<and> map_option xpath (selectors (generateSelectors exampleBrowser
         (initialState ''<label>A</label><input><label>B</label><input>''))) =
       Some [''//label[normalize-space(text())='A']/following-sibling::input'',
             ''/html/body[1]/input[1]'', ''/html/body[1]/input[2]'']
   \<and> ''//label[normalize-space(text())='B']/following-sibling::input''
       \<notin> set [''//label[normalize-space(text())='A']/following-sibling::input'',
                ''/html/body[1]/input[1]'', ''/html/body[1]/input[2]'']"
  by code_simp

section \<open>Documents with shadowed properties\<close>

text \<open>
  A form with a control named \<^verbatim>\<open>tagName\<close>: the callback raises at the form, the call
  ends with the failure toast and stores nothing, although the \<^verbatim>\<open>div\<close> before the form
  has a test id.
\<close>

lemma control_named_tagName_fails_the_call:
  "generateSelectors exampleBrowser
     (initialState ''<div data-testid=\"x\"></div><form><input name=\"tagName\"></form>'') =
   \<lparr>html = ''<div data-testid=\"x\"></div><form><input name=\"tagName\"></form>'',
    selectors = None,
    toasts = [ToastError ''Failed to analyze HTML. Please check your input.'']\<rparr>"
  by code_simp

text \<open>
  A form with a control named \<^verbatim>\<open>id\<close>: \<^verbatim>\<open>element.id\<close> of the form is the control, and
  the walk stops at the form with the control's string form as the identifier.
\<close>

lemma control_named_id_enters_the_path:
  "map_option xpath (selectors (generateSelectors exampleBrowser
     (initialState ''<form><input type=\"hidden\" name=\"id\"><button>Save</button></form>''))) =
   Some [''//input[@name='id']'', ''//input[@type='hidden']'',
         ''//*[@id='[object HTMLInputElement]']/input[1]'',
         ''//button[normalize-space(text())='Save']'',
         ''//button[contains(normalize-space(text()), 'Save')]'',
         ''//*[@id='[object HTMLInputElement]']/button[1]'']"
  by code_simp

text \<open>An image named \<^verbatim>\<open>querySelectorAll\<close>: the call fails before the pass.\<close>

lemma image_named_querySelectorAll_fails_the_call:
  "generateSelectors exampleBrowser (initialState ''<img name=\"querySelectorAll\"><p>Hi</p>'') =
   \<lparr>html = ''<img name=\"querySelectorAll\"><p>Hi</p>'',
    selectors = None,
    toasts = [ToastError ''Failed to analyze HTML. Please check your input.'']\<rparr>"
  by code_simp

end
